theory Spec2Isabelle
  imports Complex_Main "HOL-Library.Word"
begin

section \<open>The game server of server.js\<close>

text \<open>
  The server keeps one player object per WebSocket connection in the Map \<open>players\<close>,
  moves every player on a 60 Hz timer and broadcasts a snapshot on a 10 Hz timer.
  JavaScript numbers are modelled as reals. The simulation step is given twice: over the
  reals, and with every operation rounded to binary64 as the source computes it, for the
  properties on which the rounding bears. Random values and clock readings are inputs of
  the functions that draw them.
\<close>

subsection \<open>JavaScript values\<close>

datatype jsval =
    JUndefined
  | JNull
  | JBool bool
  | JNum real
  | JStr string
  | JArr "jsval list"
  | JObj "(string \<times> jsval) list"

datatype error = TypeError | SyntaxError | Error

text \<open>
  Property read \<open>v.k\<close>: a TypeError on \<open>undefined\<close> and \<open>null\<close>, the stored value on an
  object that has the key, \<open>undefined\<close> otherwise. The only names the server reads from
  a message are type, input, up, down, left, right and ts; no boolean, number, string or
  array has a property of one of these names.
\<close>

fun js_get :: "jsval \<Rightarrow> string \<Rightarrow> error + jsval" where
  "js_get JUndefined k = Inl TypeError"
| "js_get JNull k = Inl TypeError"
| "js_get (JObj kvs) k = Inr (case map_of kvs k of None \<Rightarrow> JUndefined | Some v \<Rightarrow> v)"
| "js_get v k = Inr JUndefined"

text \<open>The coercion \<open>!!v\<close>.\<close>

fun truthy :: "jsval \<Rightarrow> bool" where
  "truthy JUndefined = False"
| "truthy JNull = False"
| "truthy (JBool b) = b"
| "truthy (JNum r) = (r \<noteq> 0)"
| "truthy (JStr s) = (s \<noteq> [])"
| "truthy (JArr vs) = True"
| "truthy (JObj kvs) = True"

text \<open>
  \<open>JSON.stringify\<close>: the text is represented by the value it denotes. A key whose value
  is \<open>undefined\<close> is left out of an object, and \<open>undefined\<close> in an array is written null.
\<close>

primrec JSON_stringify :: "jsval \<Rightarrow> jsval" where
  "JSON_stringify JUndefined = JUndefined"
| "JSON_stringify JNull = JNull"
| "JSON_stringify (JBool b) = JBool b"
| "JSON_stringify (JNum r) = JNum r"
| "JSON_stringify (JStr s) = JStr s"
| "JSON_stringify (JArr vs) =
     JArr (map (\<lambda>v. if v = JUndefined then JNull else v) (map JSON_stringify vs))"
| "JSON_stringify (JObj kvs) =
     JObj (filter (\<lambda>kv. snd kv \<noteq> JUndefined) (map (map_prod id JSON_stringify) kvs))"

text \<open>\<open>Math.round\<close>: the nearest integer, a half rounded up.\<close>

definition Math_round :: "real \<Rightarrow> real" where
  "Math_round r = of_int \<lfloor>r + 1 / 2\<rfloor>"

subsection \<open>Players\<close>

record input =
  up :: bool
  down :: bool
  left :: bool
  right :: bool

text \<open>
  The player structure of the source. \<open>p_ws\<close> is the handle of the player's WebSocket;
  the socket itself lives in the server state.
\<close>

record player =
  p_id :: string
  p_ws :: nat
  p_x :: real
  p_y :: real
  p_vx :: real
  p_vy :: real
  p_speed :: real
  p_input :: input
  p_color :: string
  p_lastSeen :: int

subsection \<open>The simulation step of one player\<close>

text \<open>The four \<open>if\<close> statements that sum the key contributions.\<close>

definition raw_direction :: "input \<Rightarrow> real \<times> real" where
  "raw_direction i =
     (let dx = 0; dy = 0;
          dy = (if up i then dy - 1 else dy);
          dy = (if down i then dy + 1 else dy);
          dx = (if left i then dx - 1 else dx);
          dx = (if right i then dx + 1 else dx)
      in (dx, dy))"

text \<open>The diagonal is scaled by \<open>1 / Math.sqrt(2)\<close>.\<close>

definition normalize_diagonal :: "real \<times> real \<Rightarrow> real \<times> real" where
  "normalize_diagonal d =
     (case d of (dx, dy) \<Rightarrow>
        if dx \<noteq> 0 \<and> dy \<noteq> 0 then (let inv = 1 / sqrt 2 in (dx * inv, dy * inv))
        else (dx, dy))"

definition direction :: "input \<Rightarrow> real \<times> real" where
  "direction i = normalize_diagonal (raw_direction i)"

text \<open>The body of the loop over the players in the simulation timer.\<close>

definition simulate_player :: "real \<Rightarrow> player \<Rightarrow> player" where
  "simulate_player dt p =
     (case direction (p_input p) of (dx, dy) \<Rightarrow>
        let p = p\<lparr>p_vx := dx * p_speed p\<rparr>;
            p = p\<lparr>p_vy := dy * p_speed p\<rparr>;
            p = p\<lparr>p_x := p_x p + p_vx p * dt\<rparr>;
            p = p\<lparr>p_y := p_y p + p_vy p * dt\<rparr>;
            p = p\<lparr>p_x := max 20 (min 980 (p_x p))\<rparr>;
            p = p\<lparr>p_y := max 20 (min 580 (p_y p))\<rparr>
        in p)"

definition in_bounds :: "player \<Rightarrow> bool" where
  "in_bounds p = (20 \<le> p_x p \<and> p_x p \<le> 980 \<and> 20 \<le> p_y p \<and> p_y p \<le> 580)"

subsection \<open>The simulation step in binary64 arithmetic\<close>

text \<open>
  The numbers of the source are IEEE 754 binary64 values, and every arithmetic operation
  gives the value nearest to its exact result, a tie going to the even significand. The
  step above computes over the reals; it serves where rounding takes no part in the
  property (the clamp to the bounds, the step of an idle player). The definitions below
  repeat the step with every operation rounded. A value is the real number it denotes:
  an overflow to an infinity, NaN and the sign of zero are not modelled.
\<close>

text \<open>The integer nearest to a real, a tie going to the even one.\<close>

definition round_even :: "real \<Rightarrow> int" where
  "round_even r =
     (let f = \<lfloor>r\<rfloor> in
      if r - of_int f < 1 / 2 then f
      else if 1 / 2 < r - of_int f then f + 1
      else if even f then f else f + 1)"

text \<open>
  The exponent of the last place of the binary64 values around \<open>x\<close>: 53 significant bits,
  and no exponent below that of the subnormal numbers.
\<close>

definition ulp_exp :: "real \<Rightarrow> int" where
  "ulp_exp x = max (\<lfloor>log 2 \<bar>x\<bar>\<rfloor> - 52) (- 1074)"

text \<open>The binary64 value nearest to a real.\<close>

definition fl :: "real \<Rightarrow> real" where
  "fl x = (if x = 0 then 0
           else of_int (round_even (x / 2 powi ulp_exp x)) * 2 powi ulp_exp x)"

text \<open>The operators \<open>+\<close>, \<open>*\<close> and \<open>/\<close> of the source, and \<open>Math.sqrt\<close>.\<close>

definition add_f64 :: "real \<Rightarrow> real \<Rightarrow> real" where
  "add_f64 x y = fl (x + y)"

definition mul_f64 :: "real \<Rightarrow> real \<Rightarrow> real" where
  "mul_f64 x y = fl (x * y)"

definition div_f64 :: "real \<Rightarrow> real \<Rightarrow> real" where
  "div_f64 x y = fl (x / y)"

definition Math_sqrt :: "real \<Rightarrow> real" where
  "Math_sqrt x = fl (sqrt x)"

text \<open>
  The four \<open>if\<close> statements add and subtract 1 from 0: these sums are exact in binary64, and
  \<open>raw_direction\<close> is shared with the step over the reals. The scaling of the diagonal
  rounds three times: the square root, the quotient and the product.
\<close>

definition normalize_diagonal_f64 :: "real \<times> real \<Rightarrow> real \<times> real" where
  "normalize_diagonal_f64 d =
     (case d of (dx, dy) \<Rightarrow>
        if dx \<noteq> 0 \<and> dy \<noteq> 0
        then (let inv = div_f64 1 (Math_sqrt 2) in (mul_f64 dx inv, mul_f64 dy inv))
        else (dx, dy))"

definition direction_f64 :: "input \<Rightarrow> real \<times> real" where
  "direction_f64 i = normalize_diagonal_f64 (raw_direction i)"

text \<open>The constant \<open>inv\<close> of the source.\<close>

definition inv_sqrt2 :: real where
  "inv_sqrt2 = div_f64 1 (Math_sqrt 2)"

text \<open>The body of the loop over the players, every operation rounded.\<close>

definition simulate_player_f64 :: "real \<Rightarrow> player \<Rightarrow> player" where
  "simulate_player_f64 dt p =
     (case direction_f64 (p_input p) of (dx, dy) \<Rightarrow>
        let p = p\<lparr>p_vx := mul_f64 dx (p_speed p)\<rparr>;
            p = p\<lparr>p_vy := mul_f64 dy (p_speed p)\<rparr>;
            p = p\<lparr>p_x := add_f64 (p_x p) (mul_f64 (p_vx p) dt)\<rparr>;
            p = p\<lparr>p_y := add_f64 (p_y p) (mul_f64 (p_vy p) dt)\<rparr>;
            p = p\<lparr>p_x := max 20 (min 980 (p_x p))\<rparr>;
            p = p\<lparr>p_y := max 20 (min 580 (p_y p))\<rparr>
        in p)"


subsection \<open>Sockets and the server state\<close>

datatype ready_state = CONNECTING | OPEN | CLOSING | CLOSED

text \<open>A WebSocket of the ws library: its state and the payloads written to it so far.\<close>

record sock =
  readyState :: ready_state
  sent :: "jsval list"

text \<open>
  The second record that the connection handler stores on the \<open>players\<close> object
  itself, by \<open>players[id] = {...}\<close>.
\<close>

record shadow =
  s_x :: real
  s_y :: real
  s_vx :: real
  s_vy :: real
  s_color :: string
  s_ip :: string

datatype log_entry = Log string string | Warn string error

text \<open>
  \<open>players\<close> holds the entries of the Map in insertion order; an entry refers to its
  player object by address, and \<open>heap\<close> holds the objects, since the handlers of a
  connection keep their own reference to the player object. \<open>props\<close> holds the own
  properties that \<open>players[id] = ...\<close> puts on the Map object. \<open>accepted\<close> counts the
  connections accepted so far: the next connection's socket and player object get that
  number as handle and as address.
\<close>

record server =
  players :: "(string \<times> nat) list"
  props :: "(string \<times> shadow) list"
  heap :: "nat \<Rightarrow> player"
  socks :: "nat \<Rightarrow> sock"
  lastTime :: int
  console :: "log_entry list"
  accepted :: nat

text \<open>
  A handler returns the new state, or throws: \<open>Inl\<close> carries the error and the state
  at the throw.
\<close>

type_synonym result = "(error \<times> server) + server"

definition console_log :: "string \<Rightarrow> string \<Rightarrow> server \<Rightarrow> server" where
  "console_log a b st = st\<lparr>console := console st @ [Log a b]\<rparr>"

definition console_warn :: "string \<Rightarrow> error \<Rightarrow> server \<Rightarrow> server" where
  "console_warn a e st = st\<lparr>console := console st @ [Warn a e]\<rparr>"

subsection \<open>The Map and the properties of the Map object\<close>

text \<open>
  \<open>players[id] = v\<close> creates an own property on the Map object, which hides the method
  of the same name that the object inherits: once there is an own property named set,
  delete or values, the call \<open>players.set(...)\<close>, \<open>players.delete(...)\<close> or
  \<open>players.values()\<close> throws a TypeError. \<open>size\<close> is an inherited accessor with no
  setter: the assignment to it is ignored (the file is not in strict mode).
\<close>

definition has_own :: "string \<Rightarrow> server \<Rightarrow> bool" where
  "has_own k st = (k \<in> set (map fst (props st)))"

fun assoc_set :: "'k \<Rightarrow> 'v \<Rightarrow> ('k \<times> 'v) list \<Rightarrow> ('k \<times> 'v) list" where
  "assoc_set k v [] = [(k, v)]"
| "assoc_set k v ((k', v') # kvs) =
     (if k' = k then (k, v) # kvs else (k', v') # assoc_set k v kvs)"

definition obj_set :: "string \<Rightarrow> shadow \<Rightarrow> server \<Rightarrow> server" where
  "obj_set k v st =
     (if k = ''size'' then st else st\<lparr>props := assoc_set k v (props st)\<rparr>)"

text \<open>
  \<open>Object.entries\<close>: the keys that are array indices first, in ascending numeric order,
  then the other keys in the order of their creation.
\<close>

definition dec_val :: "string \<Rightarrow> nat" where
  "dec_val s = foldl (\<lambda>a c. 10 * a + (of_char c - 48)) 0 s"

definition is_array_index :: "string \<Rightarrow> bool" where
  "is_array_index s =
     (s \<noteq> [] \<and> list_all (\<lambda>c. c \<in> set ''0123456789'') s
      \<and> (s = ''0'' \<or> hd s \<noteq> CHR ''0'') \<and> dec_val s < 2 ^ 32 - 1)"

definition Object_entries :: "(string \<times> 'v) list \<Rightarrow> (string \<times> 'v) list" where
  "Object_entries ps =
     sort_key (\<lambda>kv. dec_val (fst kv)) (filter (\<lambda>kv. is_array_index (fst kv)) ps)
     @ filter (\<lambda>kv. \<not> is_array_index (fst kv)) ps"

definition Map_set :: "string \<Rightarrow> nat \<Rightarrow> server \<Rightarrow> result" where
  "Map_set k a st =
     (if has_own ''set'' st then Inl (TypeError, st)
      else Inr (st\<lparr>players := assoc_set k a (players st)\<rparr>))"

definition Map_delete :: "string \<Rightarrow> server \<Rightarrow> result" where
  "Map_delete k st =
     (if has_own ''delete'' st then Inl (TypeError, st)
      else Inr (st\<lparr>players := filter (\<lambda>kv. fst kv \<noteq> k) (players st)\<rparr>))"

definition Map_values :: "server \<Rightarrow> error + nat list" where
  "Map_values st =
     (if has_own ''values'' st then Inl TypeError else Inr (map snd (players st)))"

subsection \<open>Sending\<close>

text \<open>
  \<open>ws.send\<close> of the ws library: it throws on a socket that is still connecting, writes
  on an open socket, and writes nothing on a closing or closed one.
\<close>

definition ws_send :: "nat \<Rightarrow> jsval \<Rightarrow> server \<Rightarrow> result" where
  "ws_send c raw st =
     (if readyState (socks st c) = CONNECTING then Inl (Error, st)
      else if readyState (socks st c) = OPEN
      then Inr (st\<lparr>socks := (socks st)(c := (socks st c)\<lparr>sent := sent (socks st c) @ [raw]\<rparr>)\<rparr>)
      else Inr st)"

text \<open>The loop of \<open>broadcast\<close> over the player objects of the Map.\<close>

fun broadcast_loop :: "jsval \<Rightarrow> nat list \<Rightarrow> server \<Rightarrow> result" where
  "broadcast_loop raw [] st = Inr st"
| "broadcast_loop raw (a # as) st =
     (if readyState (socks st (p_ws (heap st a))) = OPEN
      then (case ws_send (p_ws (heap st a)) raw st of
              Inl e \<Rightarrow> Inl e
            | Inr st' \<Rightarrow> broadcast_loop raw as st')
      else broadcast_loop raw as st)"

definition broadcast :: "jsval \<Rightarrow> server \<Rightarrow> result" where
  "broadcast obj st =
     (let raw = JSON_stringify obj in
      case Map_values st of
        Inl e \<Rightarrow> Inl (e, st)
      | Inr as \<Rightarrow> broadcast_loop raw as st)"

subsection \<open>Messages from a client\<close>

text \<open>
  \<open>handleMessage\<close>, for the player object at address \<open>a\<close>; \<open>now\<close> is the reading of
  \<open>Date.now()\<close>. The new input object is built before it is stored, so a throw while
  reading \<open>msg.input.up\<close> leaves the stored input as it was.
\<close>

definition handleMessage :: "int \<Rightarrow> nat \<Rightarrow> jsval \<Rightarrow> server \<Rightarrow> result" where
  "handleMessage now a msg st =
     (let st = st\<lparr>heap := (heap st)(a := (heap st a)\<lparr>p_lastSeen := now\<rparr>)\<rparr> in
      case js_get msg ''type'' of
        Inl e \<Rightarrow> Inl (e, st)
      | Inr t \<Rightarrow>
          if t = JStr ''input'' then
            (case js_get msg ''input'' of
               Inl e \<Rightarrow> Inl (e, st)
             | Inr inp \<Rightarrow>
                 (case (js_get inp ''up'', js_get inp ''down'',
                        js_get inp ''left'', js_get inp ''right'') of
                    (Inr u, Inr d, Inr l, Inr r) \<Rightarrow>
                      Inr (st\<lparr>heap := (heap st)(a := (heap st a)\<lparr>p_input :=
                             \<lparr>up = truthy u, down = truthy d,
                              left = truthy l, right = truthy r\<rparr>\<rparr>)\<rparr>)
                  | _ \<Rightarrow> Inl (TypeError, st)))
          else if t = JStr ''ping'' then
            (case js_get msg ''ts'' of
               Inl e \<Rightarrow> Inl (e, st)
             | Inr ts \<Rightarrow>
                 ws_send (p_ws (heap st a))
                   (JSON_stringify (JObj [(''type'', JStr ''pong''), (''ts'', ts)])) st)
          else Inr st)"

text \<open>
  The message handler of a connection. \<open>parsed\<close> is the outcome of \<open>JSON.parse(raw)\<close>:
  a SyntaxError, or the value. Whatever the \<open>try\<close> block throws is caught and logged.
\<close>

definition on_message :: "int \<Rightarrow> nat \<Rightarrow> error + jsval \<Rightarrow> server \<Rightarrow> result" where
  "on_message now a parsed st =
     (case parsed of
        Inl err \<Rightarrow> Inr (console_warn ''Invalid message'' err st)
      | Inr msg \<Rightarrow>
          (case handleMessage now a msg st of
             Inl (err, st') \<Rightarrow> Inr (console_warn ''Invalid message'' err st')
           | Inr st' \<Rightarrow> Inr st'))"

text \<open>The close handler of the connection whose player object is at address \<open>a\<close>.\<close>

definition remove_msg :: "string \<Rightarrow> jsval" where
  "remove_msg ident = JObj [(''type'', JStr ''remove''), (''id'', JStr ident)]"

definition on_close :: "nat \<Rightarrow> server \<Rightarrow> result" where
  "on_close a st =
     (case Map_delete (p_id (heap st a)) st of
        Inl e \<Rightarrow> Inl e
      | Inr st \<Rightarrow>
          (case broadcast (remove_msg (p_id (heap st a))) st of
             Inl e \<Rightarrow> Inl e
           | Inr st \<Rightarrow> Inr (console_log ''Player disconnected'' (p_id (heap st a)) st)))"

subsection \<open>A new connection\<close>

text \<open>
  What a connection draws from its environment, in the order of the draws:
  \<open>crypto.randomBytes(8)\<close>, two results of \<open>Math.random()\<close>, \<open>crypto.randomBytes(3)\<close>
  and \<open>Date.now()\<close> in \<open>createPlayer\<close>, then the text \<open>Math.random().toString(36)\<close> and
  another \<open>crypto.randomBytes(3)\<close> in the connection handler.
\<close>

record entropy =
  id_bytes :: "64 word"
  random_x :: real
  random_y :: real
  color_bytes :: "24 word"
  created_at :: int
  random_text :: string
  shadow_color_bytes :: "24 word"

text \<open>\<open>toString('hex')\<close> of a buffer: two lower-case digits per byte.\<close>

definition hex_digit :: "nat \<Rightarrow> char" where
  "hex_digit n = ''0123456789abcdef'' ! (n mod 16)"

text \<open>The lowest \<open>n\<close> hexadecimal digits of \<open>v\<close>, the highest of them first.\<close>

fun to_hex :: "nat \<Rightarrow> nat \<Rightarrow> string" where
  "to_hex 0 v = []"
| "to_hex (Suc n) v = to_hex n (v div 16) @ [hex_digit v]"

definition randomColor :: "24 word \<Rightarrow> string" where
  "randomColor b = CHR ''#'' # to_hex 6 (unat b)"

definition createPlayer :: "nat \<Rightarrow> entropy \<Rightarrow> player" where
  "createPlayer ws e =
     (let ident = to_hex 16 (unat (id_bytes e)) in
      \<lparr>p_id = ident, p_ws = ws,
       p_x = random_x e * 600 + 100, p_y = random_y e * 400 + 100,
       p_vx = 0, p_vy = 0, p_speed = 180,
       p_input = \<lparr>up = False, down = False, left = False, right = False\<rparr>,
       p_color = randomColor (color_bytes e), p_lastSeen = created_at e\<rparr>)"

text \<open>\<open>s.slice(i, j)\<close> for \<open>0 \<le> i \<le> j\<close>, and \<open>s.replace(pat, rep)\<close> for a text \<open>pat\<close>.\<close>

definition slice_js :: "nat \<Rightarrow> nat \<Rightarrow> string \<Rightarrow> string" where
  "slice_js i j s = take (j - i) (drop i s)"

fun replace :: "string \<Rightarrow> string \<Rightarrow> string \<Rightarrow> string" where
  "replace pat rep [] = (if pat = [] then rep else [])"
| "replace pat rep (c # cs) =
     (if take (length pat) (c # cs) = pat then rep @ drop (length pat) (c # cs)
      else c # replace pat rep cs)"

definition welcome_msg :: "string \<Rightarrow> string \<Rightarrow> jsval" where
  "welcome_msg ident ip =
     JObj [(''type'', JStr ''welcome''), (''id'', JStr ident), (''ip'', JStr ip)]"

text \<open>The entry that the connection handler makes of a property of the Map object.\<close>

definition join_entry :: "string \<times> shadow \<Rightarrow> jsval" where
  "join_entry kv =
     (case kv of (ident, p) \<Rightarrow>
        JObj [(''id'', JStr ident), (''x'', JNum (s_x p)), (''y'', JNum (s_y p)),
              (''vx'', JNum (s_vx p)), (''vy'', JNum (s_vy p)),
              (''color'', JStr (s_color p)), (''ip'', JStr (s_ip p))])"

definition join_snapshot :: "server \<Rightarrow> jsval" where
  "join_snapshot st =
     (let snapshot = map join_entry (Object_entries (props st))
      in JObj [(''type'', JStr ''snapshot''), (''players'', JArr snapshot)])"

definition player_join_msg :: "player \<Rightarrow> jsval" where
  "player_join_msg p =
     JObj [(''type'', JStr ''player_join''), (''id'', JStr (p_id p)),
           (''x'', JNum (p_x p)), (''y'', JNum (p_y p)), (''color'', JStr (p_color p))]"

text \<open>
  The connection handler. The ws library hands it a new socket, already open;
  \<open>remoteAddress\<close> is \<open>req.socket.remoteAddress\<close>, which is \<open>undefined\<close> once
  the client has gone. The message and close handlers that it registers are
  \<open>on_message\<close> and \<open>on_close\<close> at the address of the new player object.
\<close>

definition connection :: "entropy \<Rightarrow> string option \<Rightarrow> server \<Rightarrow> result" where
  "connection e remoteAddress st =
     (let ws = accepted st;
          st = st\<lparr>accepted := Suc ws,
                  socks := (socks st)(ws := \<lparr>readyState = OPEN, sent = []\<rparr>)\<rparr>;
          st = st\<lparr>heap := (heap st)(ws := createPlayer ws e)\<rparr>
      in case Map_set (p_id (heap st ws)) ws st of
        Inl err \<Rightarrow> Inl err
      | Inr st \<Rightarrow>
      (case remoteAddress of
        None \<Rightarrow> Inl (TypeError, st)
      | Some addr \<Rightarrow>
      (let ip = replace ''::ffff:'' [] addr;
           ident = slice_js 2 9 (random_text e);
           st = obj_set ident \<lparr>s_x = 100, s_y = 100, s_vx = 0, s_vy = 0,
                           s_color = randomColor (shadow_color_bytes e), s_ip = ip\<rparr> st
       in case ws_send ws (JSON_stringify (welcome_msg ident ip)) st of
        Inl err \<Rightarrow> Inl err
      | Inr st \<Rightarrow>
      (case broadcast (join_snapshot st) st of
        Inl err \<Rightarrow> Inl err
      | Inr st \<Rightarrow>
      (let st = console_log ''Player connected'' (p_id (heap st ws)) st
       in broadcast (player_join_msg (heap st ws)) st)))))"

subsection \<open>The two timers\<close>

fun simulation_loop :: "real \<Rightarrow> nat list \<Rightarrow> server \<Rightarrow> server" where
  "simulation_loop dt [] st = st"
| "simulation_loop dt (a # as) st =
     simulation_loop dt as (st\<lparr>heap := (heap st)(a := simulate_player dt (heap st a))\<rparr>)"

text \<open>The simulation timer; \<open>now\<close> is the reading of \<open>Date.now()\<close>, in milliseconds.\<close>

definition simulation_tick :: "int \<Rightarrow> server \<Rightarrow> result" where
  "simulation_tick now st =
     (let dt = of_int (now - lastTime st) / 1000;
          st = st\<lparr>lastTime := now\<rparr>
      in case Map_values st of
        Inl e \<Rightarrow> Inl (e, st)
      | Inr as \<Rightarrow> Inr (simulation_loop dt as st))"

definition snapshot_entry :: "player \<Rightarrow> jsval" where
  "snapshot_entry p =
     JObj [(''id'', JStr (p_id p)),
           (''x'', JNum (Math_round (p_x p))), (''y'', JNum (Math_round (p_y p))),
           (''vx'', JNum (Math_round (p_vx p))), (''vy'', JNum (Math_round (p_vy p))),
           (''color'', JStr (p_color p))]"

text \<open>The entries that the loop of the snapshot timer pushes.\<close>

definition snapshot_players :: "nat list \<Rightarrow> server \<Rightarrow> jsval list" where
  "snapshot_players as st = map (\<lambda>a. snapshot_entry (heap st a)) as"

definition snapshot_msg :: "int \<Rightarrow> nat list \<Rightarrow> server \<Rightarrow> jsval" where
  "snapshot_msg now as st =
     JObj [(''type'', JStr ''snapshot''), (''ts'', JNum (of_int now)),
           (''players'', JArr (snapshot_players as st))]"

text \<open>The snapshot timer.\<close>

definition snapshot_tick :: "int \<Rightarrow> server \<Rightarrow> result" where
  "snapshot_tick now st =
     (case Map_values st of
        Inl e \<Rightarrow> Inl (e, st)
      | Inr as \<Rightarrow> broadcast (snapshot_msg now as st) st)"

subsection \<open>The start of the server and the transport\<close>

text \<open>
  The state when the script has run: no player, no property, \<open>lastTime\<close> the clock at
  the start. The contents of the addresses that no connection has been given yet are
  never read.
\<close>

definition server_start :: "int \<Rightarrow> server" where
  "server_start now =
     \<lparr>players = [], props = [],
      heap = (\<lambda>a. \<lparr>p_id = [], p_ws = a, p_x = 0, p_y = 0, p_vx = 0, p_vy = 0, p_speed = 0,
                   p_input = \<lparr>up = False, down = False, left = False, right = False\<rparr>,
                   p_color = [], p_lastSeen = 0\<rparr>),
      socks = (\<lambda>c. \<lparr>readyState = CLOSED, sent = []\<rparr>),
      lastTime = now, console = [], accepted = 0\<rparr>"

text \<open>The ws library moves a socket to another state.\<close>

definition transport :: "nat \<Rightarrow> ready_state \<Rightarrow> server \<Rightarrow> server" where
  "transport c rs st = st\<lparr>socks := (socks st)(c := (socks st c)\<lparr>readyState := rs\<rparr>)\<rparr>"

subsection \<open>Notions for the proofs\<close>

text \<open>
  The effect of the loop of \<open>broadcast\<close> in one step: every open socket gets the payload
  once for each listed player object that holds it.
\<close>

definition deliver :: "jsval \<Rightarrow> nat list \<Rightarrow> server \<Rightarrow> server" where
  "deliver raw as st =
     st\<lparr>socks := (\<lambda>c. if readyState (socks st c) = OPEN
                       then (socks st c)\<lparr>sent := sent (socks st c)
                              @ replicate (length (filter (\<lambda>a. p_ws (heap st a) = c) as)) raw\<rparr>
                       else socks st c)\<rparr>"

text \<open>
  The states that the handlers keep to: the Map has one entry per key and per player
  object, every entry is filed under the id of its object, and the object of the
  connection number \<open>a\<close> holds the socket number \<open>a\<close>.
\<close>

definition wf :: "server \<Rightarrow> bool" where
  "wf st =
     (distinct (map fst (players st)) \<and> distinct (map snd (players st))
      \<and> list_all (\<lambda>(k, a). a < accepted st \<and> p_ws (heap st a) = a \<and> p_id (heap st a) = k)
           (players st))"

text \<open>
  The state of the connection handler when the welcome has been written to the new
  socket: the player object is in the Map, the second record is a property of the Map
  object.
\<close>

definition greeted :: "entropy \<Rightarrow> string \<Rightarrow> server \<Rightarrow> server" where
  "greeted e addr st =
     (let ws = accepted st;
          st = st\<lparr>accepted := Suc ws,
                  socks := (socks st)(ws := \<lparr>readyState = OPEN, sent = []\<rparr>)\<rparr>;
          st = st\<lparr>heap := (heap st)(ws := createPlayer ws e)\<rparr>;
          st = st\<lparr>players := assoc_set (p_id (heap st ws)) ws (players st)\<rparr>;
          ip = replace ''::ffff:'' [] addr;
          ident = slice_js 2 9 (random_text e);
          st = obj_set ident \<lparr>s_x = 100, s_y = 100, s_vx = 0, s_vy = 0,
                           s_color = randomColor (shadow_color_bytes e), s_ip = ip\<rparr> st
      in st\<lparr>socks := (socks st)(ws := (socks st ws)\<lparr>sent := sent (socks st ws)
                          @ [JSON_stringify (welcome_msg ident ip)]\<rparr>)\<rparr>)"

text \<open>The number of entries of the Map whose player object holds the socket \<open>c\<close>.\<close>

definition holders :: "nat \<Rightarrow> server \<Rightarrow> nat" where
  "holders c st = length (filter (\<lambda>a. p_ws (heap st a) = c) (map snd (players st)))"

text \<open>The coercion \<open>!!v.k\<close> where \<open>v.k\<close> can be read.\<close>

definition coerced :: "jsval \<Rightarrow> string \<Rightarrow> bool" where
  "coerced v k = (case js_get v k of Inl e \<Rightarrow> False | Inr x \<Rightarrow> truthy x)"

text \<open>The state after the first statement of \<open>handleMessage\<close>.\<close>

definition seen :: "int \<Rightarrow> nat \<Rightarrow> server \<Rightarrow> server" where
  "seen now a st = st\<lparr>heap := (heap st)(a := (heap st a)\<lparr>p_lastSeen := now\<rparr>)\<rparr>"

text \<open>
  The states of a running server: the state at the start, and every state in which a
  handler, a timer or a move of the transport that does not throw leaves such a state.
  An exception that leaves the connection handler, the close handler or a timer ends
  the process.
\<close>

inductive reachable :: "server \<Rightarrow> bool" where
  start: "reachable (server_start t)"
| connected: "reachable st \<Longrightarrow> connection e ra st = Inr st' \<Longrightarrow> reachable st'"
| message: "reachable st \<Longrightarrow> on_message now a parsed st = Inr st' \<Longrightarrow> reachable st'"
| closed: "reachable st \<Longrightarrow> on_close a st = Inr st' \<Longrightarrow> reachable st'"
| simulated: "reachable st \<Longrightarrow> simulation_tick now st = Inr st' \<Longrightarrow> reachable st'"
| snapshot: "reachable st \<Longrightarrow> snapshot_tick now st = Inr st' \<Longrightarrow> reachable st'"
| moved: "reachable st \<Longrightarrow> reachable (transport c rs st)"

text \<open>States and inputs for the examples.\<close>

definition runner :: player where
  "runner =
     \<lparr>p_id = ''00000000000000a1'', p_ws = 0, p_x = 975, p_y = 300, p_vx = 0, p_vy = 0,
      p_speed = 180,
      p_input = \<lparr>up = False, down = False, left = False, right = True\<rparr>,
      p_color = ''#ff8800'', p_lastSeen = 0\<rparr>"

definition one_player :: server where
  "one_player =
     (server_start 0)\<lparr>players := [(''00000000000000a1'', 0)],
                      heap := (heap (server_start 0))(0 := runner),
                      socks := (socks (server_start 0))(0 := \<lparr>readyState = OPEN, sent = []\<rparr>),
                      accepted := 1\<rparr>"

definition alice :: entropy where
  "alice =
     \<lparr>id_bytes = 0x0123456789abcdef, random_x = 1 / 2, random_y = 1 / 4,
      color_bytes = 0xff8800, created_at = 1000, random_text = ''0.k3j9x2a1bcd'',
      shadow_color_bytes = 0x00ff00\<rparr>"

definition bob :: entropy where
  "bob =
     \<lparr>id_bytes = 0xfedcba9876543210, random_x = 1 / 4, random_y = 1 / 2,
      color_bytes = 0x0000ff, created_at = 2000, random_text = ''0.7zq0m4c9xyw'',
      shadow_color_bytes = 0x123456\<rparr>"

section \<open>Properties of the simulation\<close>

subsection \<open>Rounding to binary64\<close>

lemma round_even_of_int: "round_even (of_int n) = n"
  by (simp add: round_even_def)


lemma round_even_eq:
  assumes "of_int n - 1 / 2 < r" and "r < of_int n + 1 / 2"
  shows "round_even r = n"
proof -
  have "\<lfloor>r\<rfloor> = n \<or> \<lfloor>r\<rfloor> = n - 1"
    using assms by linarith
  then show ?thesis
  proof
    assume f: "\<lfloor>r\<rfloor> = n"
    with assms show ?thesis
      by (simp add: round_even_def)
  next
    assume f: "\<lfloor>r\<rfloor> = n - 1"
    with assms have "1 / 2 < r - of_int (n - 1)"
      by simp
    with f show ?thesis
      by (simp add: round_even_def)
  qed
qed

lemma powr_powi:
  "2 powr real_of_int k = 2 powi k" "2 powr (real_of_int k + 1) = 2 powi (k + 1)"
  using powr_real_of_int' [of 2 k] powr_real_of_int' [of 2 "k + 1"] by simp_all

lemma binade:
  assumes "x \<noteq> 0"
  shows "2 powi \<lfloor>log 2 \<bar>x\<bar>\<rfloor> \<le> \<bar>x\<bar>" and "\<bar>x\<bar> < 2 powi (\<lfloor>log 2 \<bar>x\<bar>\<rfloor> + 1)"
  using floor_log_eq_powr_iff [of "\<bar>x\<bar>" 2 "\<lfloor>log 2 \<bar>x\<bar>\<rfloor>"] assms
  by (simp_all add: powr_powi)

lemma floor_log2_eq:
  assumes "2 powi k \<le> \<bar>x\<bar>" and "\<bar>x\<bar> < 2 powi (k + 1)"
  shows "\<lfloor>log 2 \<bar>x\<bar>\<rfloor> = k"
proof -
  have "0 < \<bar>x\<bar>"
    using assms(1) zero_less_power_int [of "2::real" k] by linarith
  then show ?thesis
    using assms floor_log_eq_powr_iff [of "\<bar>x\<bar>" 2 k]
    by (simp add: powr_powi)
qed

lemma fl_binade:
  assumes "2 powi k \<le> \<bar>x\<bar>" and "\<bar>x\<bar> < 2 powi (k + 1)" and "- 1022 \<le> k"
  shows "fl x = of_int (round_even (x / 2 powi (k - 52))) * 2 powi (k - 52)"
proof -
  have "0 < \<bar>x\<bar>"
    using assms(1) zero_less_power_int [of "2::real" k] by linarith
  then have "x \<noteq> 0"
    by auto
  moreover have "ulp_exp x = k - 52"
    using assms(3) by (simp add: ulp_exp_def floor_log2_eq [OF assms(1,2)])
  ultimately show ?thesis
    by (simp add: fl_def)
qed

lemma fl_eval:
  assumes "2 powi k \<le> \<bar>x\<bar>" and "\<bar>x\<bar> < 2 powi (k + 1)" and "- 1022 \<le> k"
    and "of_int n - 1 / 2 < x / 2 powi (k - 52)" and "x / 2 powi (k - 52) < of_int n + 1 / 2"
  shows "fl x = of_int n * 2 powi (k - 52)"
proof -
  have "0 < \<bar>x\<bar>"
    using assms(1) zero_less_power_int [of "2::real" k] by linarith
  then have "x \<noteq> 0"
    by auto
  moreover have "ulp_exp x = k - 52"
    using assms(3) by (simp add: ulp_exp_def floor_log2_eq [OF assms(1,2)])
  ultimately show ?thesis
    by (simp add: fl_def round_even_eq [OF assms(4,5)])
qed

lemma fl_exact:
  assumes "\<bar>m\<bar> < 2 ^ 53" and "- 1074 \<le> e"
  shows "fl (of_int m * 2 powi e) = of_int m * 2 powi e"
proof (cases "m = 0")
  case True
  then show ?thesis by (simp add: fl_def)
next
  case False
  let ?x = "of_int m * 2 powi e :: real"
  have x0: "?x \<noteq> 0"
    using False by simp
  let ?k = "\<lfloor>log 2 \<bar>?x\<bar>\<rfloor>"
  have "\<bar>?x\<bar> < 2 ^ 53 * 2 powi e"
  proof -
    have "\<bar>?x\<bar> = \<bar>of_int m\<bar> * 2 powi e"
      by (simp add: abs_mult)
    moreover have "\<bar>of_int m :: real\<bar> < 2 ^ 53"
      using assms(1) by (metis of_int_abs of_int_less_numeral_power_cancel_iff)
    ultimately show ?thesis
      by (simp add: mult_strict_right_mono)
  qed
  also have "\<dots> = 2 powi (53 + e)"
    by (simp add: power_int_add)
  finally have "2 powi ?k < (2::real) powi (53 + e)"
    using binade(1) [OF x0] by linarith
  then have "?k < 53 + e"
    by (smt (verit) power_int_increasing)
  then have ue: "ulp_exp ?x \<le> e"
    using assms(2) by (simp add: ulp_exp_def)
  define u where "u = ulp_exp ?x"
  define d where "d = nat (e - u)"
  have "(2::real) powi e = 2 powi (u + int d)"
    using ue by (simp add: d_def u_def)
  then have pe: "(2::real) powi e = 2 powi u * 2 ^ d"
    by (simp add: power_int_add)
  have "?x / 2 powi u = of_int (m * 2 ^ d)"
    by (simp add: pe)
  then have "round_even (?x / 2 powi u) = m * 2 ^ d"
    by (simp only: round_even_of_int)
  then have "fl ?x = of_int (m * 2 ^ d) * 2 powi u"
    using x0 by (simp add: fl_def u_def)
  also have "\<dots> = of_int m * 2 powi e"
    by (simp add: pe)
  finally show ?thesis .
qed

lemma fl_of_int: "\<bar>n\<bar> < 2 ^ 53 \<Longrightarrow> fl (of_int n) = of_int n"
  using fl_exact [of n 0] by simp

lemma fl_numeral [simp]: "fl 0 = 0" "fl 1 = 1" "fl (- 1) = - 1"
  using fl_of_int [of 0] fl_of_int [of 1] fl_of_int [of "- 1"] by simp_all





lemma Math_sqrt_2: "Math_sqrt 2 = 6369051672525773 / 2 ^ 52"
proof -
  have l: "(6369051672525773 - 1 / 2) / 2 ^ 52 < sqrt 2"
    by (rule real_less_rsqrt) (simp add: power2_eq_square)
  have u: "sqrt 2 < (6369051672525773 + 1 / 2) / 2 ^ 52"
    by (rule real_less_lsqrt) (simp_all add: power2_eq_square)
  have "fl (sqrt 2) = of_int 6369051672525773 * 2 powi (0 - 52)"
  proof (rule fl_eval)
    show "2 powi 0 \<le> \<bar>sqrt 2\<bar>"
      by simp
    show "\<bar>sqrt 2\<bar> < 2 powi (0 + 1)"
      using sqrt2_less_2 by simp
    show "- 1022 \<le> (0::int)"
      by simp
    show "of_int 6369051672525773 - 1 / 2 < sqrt 2 / 2 powi (0 - 52)"
      using l by (simp add: field_simps)
    show "sqrt 2 / 2 powi (0 - 52) < of_int 6369051672525773 + 1 / 2"
      using u by (simp add: field_simps)
  qed
  then show ?thesis
    by (simp add: Math_sqrt_def)
qed

lemma inv_sqrt2_value: "inv_sqrt2 = 1592262918131443 / 2 ^ 51"
  unfolding inv_sqrt2_def div_f64_def Math_sqrt_2
  by (subst fl_binade [where k = "- 1"]) (simp_all add: round_even_def)

lemma fl_inv_sqrt2: "fl inv_sqrt2 = inv_sqrt2" "fl (- inv_sqrt2) = - inv_sqrt2"
  using fl_exact [of 1592262918131443 "- 51"] fl_exact [of "- 1592262918131443" "- 51"]
  by (simp_all add: inv_sqrt2_value power_int_minus field_simps)





subsection \<open>The direction vector and the step of one player\<close>

lemma direction_cases:
  "direction i =
     (let dx = (if left i = right i then 0 else if right i then 1 else -1);
          dy = (if up i = down i then 0 else if down i then 1 else -1)
      in if dx \<noteq> 0 \<and> dy \<noteq> 0 then (dx / sqrt 2, dy / sqrt 2) else (dx, dy))"
  by (cases "up i"; cases "down i"; cases "left i"; cases "right i";
      simp add: direction_def raw_direction_def normalize_diagonal_def Let_def)

lemma simulate_player_fields:
  "p_vx (simulate_player dt p) = fst (direction (p_input p)) * p_speed p"
  "p_vy (simulate_player dt p) = snd (direction (p_input p)) * p_speed p"
  "p_x (simulate_player dt p) =
     max 20 (min 980 (p_x p + fst (direction (p_input p)) * p_speed p * dt))"
  "p_y (simulate_player dt p) =
     max 20 (min 580 (p_y p + snd (direction (p_input p)) * p_speed p * dt))"
  "p_input (simulate_player dt p) = p_input p"
  "p_speed (simulate_player dt p) = p_speed p"
  "p_ws (simulate_player dt p) = p_ws p"
  "p_id (simulate_player dt p) = p_id p"
  "p_color (simulate_player dt p) = p_color p"
  "p_lastSeen (simulate_player dt p) = p_lastSeen p"
  by (simp_all add: simulate_player_def Let_def split: prod.split)

lemma simulate_player_in_bounds: "in_bounds (simulate_player dt p)"
  by (simp add: in_bounds_def simulate_player_fields)

lemma direction_f64_cases:
  "direction_f64 i =
     (let dx = (if left i = right i then 0 else if right i then 1 else - 1);
          dy = (if up i = down i then 0 else if down i then 1 else - 1)
      in if dx \<noteq> 0 \<and> dy \<noteq> 0 then (dx * inv_sqrt2, dy * inv_sqrt2) else (dx, dy))"
  by (cases "up i"; cases "down i"; cases "left i"; cases "right i";
      simp add: direction_f64_def raw_direction_def normalize_diagonal_f64_def Let_def
        mul_f64_def inv_sqrt2_def [symmetric] fl_inv_sqrt2)


lemma simulate_player_f64_fields:
  "p_vx (simulate_player_f64 dt p) = mul_f64 (fst (direction_f64 (p_input p))) (p_speed p)"
  "p_vy (simulate_player_f64 dt p) = mul_f64 (snd (direction_f64 (p_input p))) (p_speed p)"
  "p_x (simulate_player_f64 dt p) =
     max 20 (min 980
       (add_f64 (p_x p) (mul_f64 (mul_f64 (fst (direction_f64 (p_input p))) (p_speed p)) dt)))"
  "p_y (simulate_player_f64 dt p) =
     max 20 (min 580
       (add_f64 (p_y p) (mul_f64 (mul_f64 (snd (direction_f64 (p_input p))) (p_speed p)) dt)))"
  "p_input (simulate_player_f64 dt p) = p_input p"
  "p_speed (simulate_player_f64 dt p) = p_speed p"
  "p_ws (simulate_player_f64 dt p) = p_ws p"
  "p_id (simulate_player_f64 dt p) = p_id p"
  "p_color (simulate_player_f64 dt p) = p_color p"
  "p_lastSeen (simulate_player_f64 dt p) = p_lastSeen p"
  by (simp_all add: simulate_player_f64_def Let_def split: prod.split)


lemma simulate_player_f64_in_bounds: "in_bounds (simulate_player_f64 dt p)"
  by (simp add: in_bounds_def simulate_player_f64_fields)

lemma idle_in_bounds_f64:
  assumes "p_input p = \<lparr>up = False, down = False, left = False, right = False\<rparr>"
    and "in_bounds p" and "fl (p_x p) = p_x p" and "fl (p_y p) = p_y p"
  shows "simulate_player_f64 dt p = p\<lparr>p_vx := 0, p_vy := 0\<rparr>"
  using assms
  by (simp add: simulate_player_f64_def Let_def direction_f64_cases in_bounds_def
        mul_f64_def add_f64_def)







subsection \<open>A key held over several ticks\<close>







subsection \<open>The simulation timer\<close>

lemma simulation_loop_fields:
  "players (simulation_loop dt as st) = players st"
  "props (simulation_loop dt as st) = props st"
  "socks (simulation_loop dt as st) = socks st"
  "lastTime (simulation_loop dt as st) = lastTime st"
  "console (simulation_loop dt as st) = console st"
  "accepted (simulation_loop dt as st) = accepted st"
  by (induction as arbitrary: st; simp)+

lemma simulation_loop_heap:
  "heap (simulation_loop dt as st) a = (simulate_player dt ^^ count_list as a) (heap st a)"
proof (induction as arbitrary: st)
  case Nil
  show ?case by simp
next
  case (Cons b as)
  show ?case
    by (simp add: Cons.IH funpow_swap1)
qed

lemma funpow_in_bounds: "in_bounds p \<Longrightarrow> in_bounds ((simulate_player dt ^^ n) p)"
  by (induction n) (simp_all add: simulate_player_in_bounds)

lemma simulation_loop_in_bounds:
  assumes "a \<in> set as"
  shows "in_bounds (heap (simulation_loop dt as st) a)"
proof -
  from assms obtain n where n: "count_list as a = Suc n"
    by (metis count_list_0_iff not0_implies_Suc)
  have "(simulate_player dt ^^ Suc n) (heap st a)
        = (simulate_player dt ^^ n) (simulate_player dt (heap st a))"
    by (simp only: funpow_Suc_right o_apply)
  then show ?thesis
    by (simp only: simulation_loop_heap n funpow_in_bounds simulate_player_in_bounds)
qed

text \<open>
  Claim C1. When a tick of the simulation timer has run, every player of the Map stands
  at a position with x in [20, 980] and y in [20, 580], whatever the state before, the
  speed and the time since the last tick.
\<close>

theorem tick_keeps_positions_in_bounds:
  assumes "simulation_tick now st = Inr st'" and "(k, a) \<in> set (players st')"
  shows "20 \<le> p_x (heap st' a) \<and> p_x (heap st' a) \<le> 980
         \<and> 20 \<le> p_y (heap st' a) \<and> p_y (heap st' a) \<le> 580"
proof -
  let ?dt = "of_int (now - lastTime st) / 1000 :: real"
  let ?st = "st\<lparr>lastTime := now\<rparr>"
  from assms(1) have st': "st' = simulation_loop ?dt (map snd (players st)) ?st"
    by (auto simp: simulation_tick_def Map_values_def Let_def split: if_splits)
  with assms(2) have "a \<in> set (map snd (players st))"
    by (force simp: simulation_loop_fields)
  then have "in_bounds (heap st' a)"
    unfolding st' by (rule simulation_loop_in_bounds)
  then show ?thesis
    by (simp add: in_bounds_def)
qed

theorem tick_keeps_positions_in_bounds_witness:
  "\<exists>st'. simulation_tick 100 one_player = Inr st'
     \<and> (''00000000000000a1'', 0) \<in> set (players st')
     \<and> p_x (heap st' 0) = 980
     \<and> 20 \<le> p_x (heap st' 0) \<and> p_x (heap st' 0) \<le> 980
     \<and> 20 \<le> p_y (heap st' 0) \<and> p_y (heap st' 0) \<le> 580"
proof -
  let ?st' = "simulation_loop (1 / 10) [0] (one_player\<lparr>lastTime := 100\<rparr>)"
  have t: "simulation_tick 100 one_player = Inr ?st'"
    by (simp add: simulation_tick_def Map_values_def has_own_def one_player_def
          server_start_def)
  have m: "(''00000000000000a1'', 0) \<in> set (players ?st')"
    by (simp add: one_player_def)
  have x: "p_x (heap ?st' 0) = 980"
    by (simp add: one_player_def simulate_player_fields runner_def direction_cases)
  show ?thesis
    using t m x tick_keeps_positions_in_bounds [OF t m] by blast
qed

section \<open>Properties of the handlers\<close>

subsection \<open>Association lists\<close>

lemma assoc_set_map_fst:
  "map fst (assoc_set k v kvs) =
     (if k \<in> set (map fst kvs) then map fst kvs else map fst kvs @ [k])"
  by (induction kvs) (auto split: if_splits)

lemma assoc_set_keys: "set (map fst (assoc_set k v kvs)) = insert k (set (map fst kvs))"
  by (auto simp: assoc_set_map_fst split: if_splits)

lemma assoc_set_distinct_keys:
  "distinct (map fst kvs) \<Longrightarrow> distinct (map fst (assoc_set k v kvs))"
  by (simp add: assoc_set_map_fst)

lemma assoc_set_mem: "(k, v) \<in> set (assoc_set k v kvs)"
  by (induction kvs) auto

lemma assoc_set_subset: "set (assoc_set k v kvs) \<subseteq> insert (k, v) (set kvs)"
  by (induction kvs) (auto split: if_splits)

lemma assoc_set_map_snd_subset:
  "set (map snd (assoc_set k v kvs)) \<subseteq> insert v (set (map snd kvs))"
  using assoc_set_subset [of k v kvs] by force

lemma assoc_set_distinct_values:
  "distinct (map snd kvs) \<Longrightarrow> v \<notin> set (map snd kvs) \<Longrightarrow> distinct (map snd (assoc_set k v kvs))"
proof (induction kvs)
  case Nil
  show ?case by simp
next
  case (Cons kv kvs)
  obtain k' v' where kv: "kv = (k', v')" by (cases kv)
  from Cons.prems have d: "distinct (map snd kvs)" and v': "v' \<notin> set (map snd kvs)"
    and nv: "v \<notin> set (map snd kvs)" and ne: "v \<noteq> v'"
    by (auto simp: kv)
  have ih: "distinct (map snd (assoc_set k v kvs))"
    using Cons.IH d nv by blast
  have "v' \<notin> set (map snd (assoc_set k v kvs))"
    using assoc_set_map_snd_subset [of k v kvs] v' ne by blast
  with ih d nv show ?case
    by (simp add: kv)
qed

subsection \<open>Broadcasting\<close>

lemma deliver_fields:
  "players (deliver raw as st) = players st"
  "props (deliver raw as st) = props st"
  "heap (deliver raw as st) = heap st"
  "lastTime (deliver raw as st) = lastTime st"
  "console (deliver raw as st) = console st"
  "accepted (deliver raw as st) = accepted st"
  by (simp_all add: deliver_def)

lemma deliver_socks:
  "socks (deliver raw as st) c =
     (if readyState (socks st c) = OPEN
      then (socks st c)\<lparr>sent := sent (socks st c)
             @ replicate (length (filter (\<lambda>a. p_ws (heap st a) = c) as)) raw\<rparr>
      else socks st c)"
  by (simp add: deliver_def)

lemma deliver_readyState:
  "readyState (socks (deliver raw as st) c) = readyState (socks st c)"
  by (simp add: deliver_socks)

lemma deliver_Nil: "deliver raw [] st = st"
  by (rule server.equality) (auto simp: deliver_def fun_eq_iff)

lemma deliver_Cons:
  "deliver raw (a # as) st =
     (if readyState (socks st (p_ws (heap st a))) = OPEN
      then deliver raw as
             (st\<lparr>socks := (socks st)(p_ws (heap st a) :=
                    (socks st (p_ws (heap st a)))\<lparr>sent := sent (socks st (p_ws (heap st a))) @ [raw]\<rparr>)\<rparr>)
      else deliver raw as st)"
  by (auto simp: deliver_def fun_eq_iff replicate_append_same intro!: server.equality)

lemma broadcast_loop_deliver: "broadcast_loop raw as st = Inr (deliver raw as st)"
proof (induction as arbitrary: st)
  case Nil
  show ?case by (simp add: deliver_Nil)
next
  case (Cons a as)
  show ?case
    by (simp add: Cons.IH deliver_Cons ws_send_def)
qed

lemma broadcast_eq:
  "broadcast obj st =
     (if has_own ''values'' st then Inl (TypeError, st)
      else Inr (deliver (JSON_stringify obj) (map snd (players st)) st))"
  by (simp add: broadcast_def Map_values_def broadcast_loop_deliver)


subsection \<open>The connection handler\<close>

lemma to_hex_numeral:
  "to_hex (numeral k) v = to_hex (pred_numeral k) (v div 16) @ [hex_digit v]"
  using to_hex.simps(2) [of "pred_numeral k" v]
  by (simp only: numeral_eq_Suc [of k, symmetric])

lemma length_to_hex: "length (to_hex n v) = n"
  by (induction n arbitrary: v) simp_all

lemma length_player_id: "length (p_id (createPlayer ws e)) = 16"
  by (simp add: createPlayer_def length_to_hex)

lemma length_slice_js: "length (slice_js i j s) \<le> j - i"
  by (simp add: slice_js_def)

lemma welcome_id_not_player_id: "slice_js 2 9 (random_text e) \<noteq> p_id (createPlayer ws e)"
proof
  assume "slice_js 2 9 (random_text e) = p_id (createPlayer ws e)"
  then have "length (slice_js 2 9 (random_text e)) = 16"
    by (simp add: length_player_id)
  moreover have "length (slice_js 2 9 (random_text e)) \<le> 7"
    using length_slice_js [of 2 9 "random_text e"] by simp
  ultimately show False by simp
qed

lemma JSON_stringify_msgs:
  "JSON_stringify (welcome_msg i ip) = welcome_msg i ip"
  "JSON_stringify (player_join_msg p) = player_join_msg p"
  "JSON_stringify (remove_msg i) = remove_msg i"
  by (simp_all add: welcome_msg_def player_join_msg_def remove_msg_def)

lemma greeted_fields:
  "players (greeted e addr st) =
     assoc_set (p_id (createPlayer (accepted st) e)) (accepted st) (players st)"
  "heap (greeted e addr st) = (heap st)(accepted st := createPlayer (accepted st) e)"
  "accepted (greeted e addr st) = Suc (accepted st)"
  "console (greeted e addr st) = console st"
  "lastTime (greeted e addr st) = lastTime st"
  "socks (greeted e addr st) =
     (socks st)(accepted st := \<lparr>readyState = OPEN,
        sent = [JSON_stringify (welcome_msg (slice_js 2 9 (random_text e))
                                  (replace ''::ffff:'' [] addr))]\<rparr>)"
  "props (greeted e addr st) =
     (if slice_js 2 9 (random_text e) = ''size'' then props st
      else assoc_set (slice_js 2 9 (random_text e))
             \<lparr>s_x = 100, s_y = 100, s_vx = 0, s_vy = 0,
              s_color = randomColor (shadow_color_bytes e),
              s_ip = replace ''::ffff:'' [] addr\<rparr> (props st))"
  by (simp_all add: greeted_def obj_set_def Let_def)

lemma connection_Some:
  assumes "\<not> has_own ''set'' st"
  shows "connection e (Some addr) st =
     (let g = greeted e addr st; new = createPlayer (accepted st) e in
      if has_own ''values'' g then Inl (TypeError, g)
      else Inr (deliver (JSON_stringify (player_join_msg new)) (map snd (players g))
                 (console_log ''Player connected'' (p_id new)
                    (deliver (JSON_stringify (join_snapshot g)) (map snd (players g)) g))))"
proof -
  have own: "has_own k (obj_set i v (s\<lparr>socks := f\<rparr>)) = has_own k (obj_set i v s)" for k i v s f
    by (simp add: has_own_def obj_set_def)
  show ?thesis
    using assms
    apply (simp add: connection_def Map_set_def Let_def ws_send_def)
    apply (simp add: greeted_def Let_def broadcast_eq obj_set_def has_own_def console_log_def
        deliver_fields)
    done
qed

lemma console_log_fields:
  "players (console_log x y st) = players st"
  "props (console_log x y st) = props st"
  "heap (console_log x y st) = heap st"
  "socks (console_log x y st) = socks st"
  "lastTime (console_log x y st) = lastTime st"
  "accepted (console_log x y st) = accepted st"
  "console (console_log x y st) = console st @ [Log x y]"
  by (simp_all add: console_log_def)

lemma connection_InrD:
  assumes "connection e ra st = Inr st'"
  shows "\<exists>addr. ra = Some addr \<and> \<not> has_own ''set'' st
           \<and> \<not> has_own ''values'' (greeted e addr st)
           \<and> st' = deliver (player_join_msg (createPlayer (accepted st) e))
                      (map snd (players (greeted e addr st)))
                      (console_log ''Player connected'' (p_id (createPlayer (accepted st) e))
                        (deliver (JSON_stringify (join_snapshot (greeted e addr st)))
                          (map snd (players (greeted e addr st))) (greeted e addr st)))"
proof (cases "has_own ''set'' st")
  case True
  have "Map_set k a (s\<lparr>heap := h\<rparr>) = Inl (TypeError, s\<lparr>heap := h\<rparr>)"
    if "has_own ''set'' s" for k a s h
    using that by (simp add: Map_set_def has_own_def)
  moreover have "has_own ''set'' (st\<lparr>accepted := n, socks := f\<rparr>)" for n f
    using True by (simp add: has_own_def)
  ultimately have "\<exists>s. connection e ra st = Inl (TypeError, s)"
    unfolding connection_def Let_def by simp
  with assms show ?thesis by simp
next
  case False
  show ?thesis
  proof (cases ra)
    case None
    have "Map_set k a (s\<lparr>heap := h\<rparr>) = Inr (s\<lparr>heap := h, players := assoc_set k a (players s)\<rparr>)"
      if "\<not> has_own ''set'' s" for k a s h
      using that by (simp add: Map_set_def has_own_def)
    moreover have "\<not> has_own ''set'' (st\<lparr>accepted := n, socks := f\<rparr>)" for n f
      using False by (simp add: has_own_def)
    ultimately have "\<exists>s. connection e None st = Inl (TypeError, s)"
      unfolding connection_def Let_def by simp
    with assms None show ?thesis by simp
  next
    case (Some addr)
    have "connection e (Some addr) st = Inr st'"
      using assms Some by simp
    then show ?thesis
      unfolding connection_Some [OF False] Let_def JSON_stringify_msgs Some
      using False by (cases "has_own ''values'' (greeted e addr st)") auto
  qed
qed

lemma has_own_greeted:
  "has_own k (greeted e addr st) =
     (has_own k st \<or> (slice_js 2 9 (random_text e) \<noteq> ''size'' \<and> k = slice_js 2 9 (random_text e)))"
  using assoc_set_keys [of "slice_js 2 9 (random_text e)" _ "props st"]
  by (auto simp: has_own_def greeted_fields)

lemma connection_returns:
  assumes "\<not> has_own ''set'' st" and "\<not> has_own ''values'' st"
    and "slice_js 2 9 (random_text e) \<noteq> ''values''"
  shows "\<exists>st'. connection e (Some addr) st = Inr st'"
  using assms by (simp add: connection_Some [OF assms(1)] Let_def has_own_greeted)

lemma connection_fields:
  assumes "connection e ra st = Inr st'"
  shows "players st' =
           assoc_set (p_id (createPlayer (accepted st) e)) (accepted st) (players st)"
    and "heap st' = (heap st)(accepted st := createPlayer (accepted st) e)"
    and "accepted st' = Suc (accepted st)"
    and "lastTime st' = lastTime st"
    and "console st' =
           console st @ [Log ''Player connected'' (p_id (createPlayer (accepted st) e))]"
    and "props st' = props (greeted e (the ra) st)"
    and "readyState (socks st' c) = (if c = accepted st then OPEN else readyState (socks st c))"
  using connection_InrD [OF assms]
  by (auto simp: deliver_fields console_log_fields greeted_fields deliver_readyState)

lemma connection_sent:
  assumes "connection e ra st = Inr st'"
  shows "sent (socks st' c) =
           (if c = accepted st
            then welcome_msg (slice_js 2 9 (random_text e)) (replace ''::ffff:'' [] (the ra))
                 # replicate (holders c st') (JSON_stringify (join_snapshot st'))
                 @ replicate (holders c st') (player_join_msg (createPlayer (accepted st) e))
            else if readyState (socks st c) = OPEN
            then sent (socks st c)
                 @ replicate (holders c st') (JSON_stringify (join_snapshot st'))
                 @ replicate (holders c st') (player_join_msg (createPlayer (accepted st) e))
            else sent (socks st c))"
proof -
  from connection_InrD [OF assms] obtain addr where ra: "ra = Some addr"
    and st': "st' = deliver (player_join_msg (createPlayer (accepted st) e))
                      (map snd (players (greeted e addr st)))
                      (console_log ''Player connected'' (p_id (createPlayer (accepted st) e))
                        (deliver (JSON_stringify (join_snapshot (greeted e addr st)))
                          (map snd (players (greeted e addr st))) (greeted e addr st)))"
    by blast
  have j: "join_snapshot st' = join_snapshot (greeted e addr st)"
    by (simp add: st' join_snapshot_def deliver_fields console_log_fields)
  have h: "holders c st' = length (filter (\<lambda>a. p_ws (heap (greeted e addr st) a) = c)
             (map snd (players (greeted e addr st))))"
    by (simp add: st' holders_def deliver_fields console_log_fields)
  show ?thesis
    unfolding j h
    by (simp add: st' ra deliver_socks deliver_fields console_log_fields greeted_fields
          JSON_stringify_msgs)
qed

lemma holders_pos:
  assumes "(k, a) \<in> set (players st)"
  shows "1 \<le> holders (p_ws (heap st a)) st"
proof -
  have "a \<in> set (filter (\<lambda>b. p_ws (heap st b) = p_ws (heap st a)) (map snd (players st)))"
    using assms by force
  then have "filter (\<lambda>b. p_ws (heap st b) = p_ws (heap st a)) (map snd (players st)) \<noteq> []"
    by (metis empty_iff list.set(1))
  then have "0 < length (filter (\<lambda>b. p_ws (heap st b) = p_ws (heap st a)) (map snd (players st)))"
    using length_greater_0_conv by blast
  then show ?thesis
    unfolding holders_def by linarith
qed

lemma p_ws_createPlayer: "p_ws (createPlayer ws e) = ws"
  by (simp add: createPlayer_def)

lemma connection_registers:
  assumes "connection e ra st = Inr st'"
  shows "(p_id (createPlayer (accepted st) e), accepted st) \<in> set (players st')"
    and "heap st' (accepted st) = createPlayer (accepted st) e"
    and "1 \<le> holders (accepted st) st'"
proof -
  show m: "(p_id (createPlayer (accepted st) e), accepted st) \<in> set (players st')"
    by (simp add: connection_fields(1) [OF assms] assoc_set_mem)
  show h: "heap st' (accepted st) = createPlayer (accepted st) e"
    by (simp add: connection_fields(2) [OF assms])
  show "1 \<le> holders (accepted st) st'"
    using holders_pos [OF m] by (simp add: h p_ws_createPlayer)
qed

lemma join_entry_defined: "JSON_stringify (join_entry kv) = join_entry kv" "join_entry kv \<noteq> JUndefined"
  by (simp_all add: join_entry_def split: prod.split)

lemma JSON_stringify_join_snapshot: "JSON_stringify (join_snapshot st) = join_snapshot st"
  by (simp add: join_snapshot_def join_entry_defined o_def)

lemma replicate_nth_0: "1 \<le> n \<Longrightarrow> (x # replicate n y @ zs) ! 1 = y"
  by (cases n) simp_all

lemma last_replicate_append: "1 \<le> n \<Longrightarrow> last (xs @ replicate m y @ replicate n z) = z"
  by (cases n) (simp_all add: replicate_append_same [symmetric] del: replicate_Suc)


lemma alice_values:
  "createPlayer ws alice =
     \<lparr>p_id = ''0123456789abcdef'', p_ws = ws, p_x = 400, p_y = 200, p_vx = 0, p_vy = 0,
      p_speed = 180, p_input = \<lparr>up = False, down = False, left = False, right = False\<rparr>,
      p_color = ''#ff8800'', p_lastSeen = 1000\<rparr>"
  "slice_js 2 9 (random_text alice) = ''k3j9x2a''"
  "randomColor (shadow_color_bytes alice) = ''#00ff00''"
  by (simp_all add: createPlayer_def alice_def randomColor_def to_hex_numeral hex_digit_def
        slice_js_def)

lemma bob_values:
  "createPlayer ws bob =
     \<lparr>p_id = ''fedcba9876543210'', p_ws = ws, p_x = 250, p_y = 300, p_vx = 0, p_vy = 0,
      p_speed = 180, p_input = \<lparr>up = False, down = False, left = False, right = False\<rparr>,
      p_color = ''#0000ff'', p_lastSeen = 2000\<rparr>"
  "slice_js 2 9 (random_text bob) = ''7zq0m4c''"
  "randomColor (shadow_color_bytes bob) = ''#123456''"
  by (simp_all add: createPlayer_def bob_def randomColor_def to_hex_numeral hex_digit_def
        slice_js_def)

lemma server_start_fields:
  "players (server_start t) = []" "props (server_start t) = []"
  "accepted (server_start t) = 0" "console (server_start t) = []"
  "lastTime (server_start t) = t"
  "socks (server_start t) c = \<lparr>readyState = CLOSED, sent = []\<rparr>"
  "\<not> has_own k (server_start t)"
  by (simp_all add: server_start_def has_own_def)

lemma not_index: "\<not> is_array_index ''k3j9x2a''" "\<not> is_array_index ''7zq0m4c''"
  by (simp_all add: is_array_index_def)

text \<open>The first connection of a fresh server, with the draws of \<open>alice\<close>.\<close>

lemma alice_joins:
  "\<exists>st'. connection alice (Some ''::ffff:127.0.0.1'') (server_start 0) = Inr st'
     \<and> players st' = [(''0123456789abcdef'', 0)]
     \<and> heap st' 0 = createPlayer 0 alice
     \<and> accepted st' = 1
     \<and> props st' = [(''k3j9x2a'', \<lparr>s_x = 100, s_y = 100, s_vx = 0, s_vy = 0,
                                      s_color = ''#00ff00'', s_ip = ''127.0.0.1''\<rparr>)]
     \<and> readyState (socks st' 0) = OPEN
     \<and> sent (socks st' 0) =
         [JObj [(''type'', JStr ''welcome''), (''id'', JStr ''k3j9x2a''),
                (''ip'', JStr ''127.0.0.1'')],
          JObj [(''type'', JStr ''snapshot''),
                (''players'', JArr [JObj [(''id'', JStr ''k3j9x2a''), (''x'', JNum 100),
                   (''y'', JNum 100), (''vx'', JNum 0), (''vy'', JNum 0),
                   (''color'', JStr ''#00ff00''), (''ip'', JStr ''127.0.0.1'')]])],
          JObj [(''type'', JStr ''player_join''), (''id'', JStr ''0123456789abcdef''),
                (''x'', JNum 400), (''y'', JNum 200), (''color'', JStr ''#ff8800'')]]"
proof -
  obtain st' where c: "connection alice (Some ''::ffff:127.0.0.1'') (server_start 0) = Inr st'"
    using connection_returns [of "server_start 0" alice "''::ffff:127.0.0.1''"]
    by (auto simp: server_start_fields alice_values)
  have p: "players st' = [(''0123456789abcdef'', 0)]"
    by (simp add: connection_fields(1) [OF c] server_start_fields alice_values)
  have h: "heap st' 0 = createPlayer 0 alice"
    using connection_registers(2) [OF c] by (simp add: server_start_fields)
  have a: "accepted st' = 1"
    by (simp add: connection_fields(3) [OF c] server_start_fields)
  have q: "props st' = [(''k3j9x2a'', \<lparr>s_x = 100, s_y = 100, s_vx = 0, s_vy = 0,
                                      s_color = ''#00ff00'', s_ip = ''127.0.0.1''\<rparr>)]"
    by (simp add: connection_fields(6) [OF c] greeted_fields server_start_fields alice_values)
  have r: "readyState (socks st' 0) = OPEN"
    by (simp add: connection_fields(7) [OF c] server_start_fields)
  have n: "holders 0 st' = 1"
    by (simp add: holders_def p h alice_values)
  have j: "join_snapshot st' =
      JObj [(''type'', JStr ''snapshot''),
            (''players'', JArr [JObj [(''id'', JStr ''k3j9x2a''), (''x'', JNum 100),
               (''y'', JNum 100), (''vx'', JNum 0), (''vy'', JNum 0),
               (''color'', JStr ''#00ff00''), (''ip'', JStr ''127.0.0.1'')]])]"
    by (simp add: join_snapshot_def q Object_entries_def not_index join_entry_def)
  have s: "sent (socks st' 0) =
      [welcome_msg ''k3j9x2a'' ''127.0.0.1'', join_snapshot st', player_join_msg (createPlayer 0 alice)]"
    by (simp add: connection_sent [OF c] server_start_fields n JSON_stringify_join_snapshot
          alice_values(2))
  show ?thesis
    using c p h a q r s unfolding j
    by (simp add: welcome_msg_def player_join_msg_def alice_values)
qed

lemma js_get_msgs:
  "js_get (welcome_msg i ip) ''type'' = Inr (JStr ''welcome'')"
  "js_get (welcome_msg i ip) ''id'' = Inr (JStr i)"
  "js_get (player_join_msg p) ''type'' = Inr (JStr ''player_join'')"
  "js_get (player_join_msg p) ''id'' = Inr (JStr (p_id p))"
  "js_get (remove_msg i) ''id'' = Inr (JStr i)"
  "js_get (join_snapshot st) ''ts'' = Inr JUndefined"
  "js_get (join_entry kv) ''id'' = Inr (JStr (fst kv))"
  "js_get (join_entry kv) ''ip'' = Inr (JStr (s_ip (snd kv)))"
  by (simp_all add: welcome_msg_def player_join_msg_def remove_msg_def join_snapshot_def
        join_entry_def split: prod.split)

lemma set_Object_entries: "set (Object_entries ps) = set ps"
  by (auto simp: Object_entries_def)

subsection \<open>The identity in the welcome\<close>

text \<open>
  Claim C3 (the code does otherwise). On every connection that the handler completes,
  the first payload on the new socket is the welcome, and the id it carries is the text
  drawn for the second record; the player object is filed in the Map under the id of
  \<open>createPlayer\<close>, which is also the id of the player_join payload; the two ids differ.
\<close>

theorem welcome_id_is_not_the_registry_id:
  assumes "connection e ra st = Inr st'"
  shows "js_get (sent (socks st' (accepted st)) ! 0) ''type'' = Inr (JStr ''welcome'')
       \<and> js_get (sent (socks st' (accepted st)) ! 0) ''id''
           = Inr (JStr (slice_js 2 9 (random_text e)))
       \<and> (p_id (heap st' (accepted st)), accepted st) \<in> set (players st')
       \<and> js_get (last (sent (socks st' (accepted st)))) ''id''
           = Inr (JStr (p_id (heap st' (accepted st))))
       \<and> js_get (sent (socks st' (accepted st)) ! 0) ''id''
           \<noteq> Inr (JStr (p_id (heap st' (accepted st))))"
proof -
  let ?ws = "accepted st"
  have h: "heap st' ?ws = createPlayer ?ws e"
    by (rule connection_registers(2) [OF assms])
  have n: "1 \<le> holders ?ws st'"
    by (rule connection_registers(3) [OF assms])
  have s: "sent (socks st' ?ws) =
      [welcome_msg (slice_js 2 9 (random_text e)) (replace ''::ffff:'' [] (the ra))]
      @ replicate (holders ?ws st') (JSON_stringify (join_snapshot st'))
      @ replicate (holders ?ws st') (player_join_msg (createPlayer ?ws e))"
    by (simp add: connection_sent [OF assms])
  have l: "last (sent (socks st' ?ws)) = player_join_msg (createPlayer ?ws e)"
    unfolding s using n by (rule last_replicate_append)
  have f: "sent (socks st' ?ws) ! 0
      = welcome_msg (slice_js 2 9 (random_text e)) (replace ''::ffff:'' [] (the ra))"
    by (simp add: s)
  show ?thesis
    using connection_registers(1) [OF assms] welcome_id_not_player_id [of e ?ws]
    by (simp add: f l h js_get_msgs)
qed

theorem welcome_id_is_not_the_registry_id_witness:
  "\<exists>st'. connection alice (Some ''::ffff:127.0.0.1'') (server_start 0) = Inr st'
     \<and> js_get (sent (socks st' 0) ! 0) ''id'' = Inr (JStr ''k3j9x2a'')
     \<and> (''0123456789abcdef'', 0) \<in> set (players st')
     \<and> js_get (last (sent (socks st' 0))) ''id'' = Inr (JStr ''0123456789abcdef'')"
proof -
  obtain st' where c: "connection alice (Some ''::ffff:127.0.0.1'') (server_start 0) = Inr st'"
    and h: "heap st' 0 = createPlayer 0 alice"
    using alice_joins by blast
  show ?thesis
    using c welcome_id_is_not_the_registry_id [OF c]
    by (auto simp: server_start_fields h alice_values)
qed

subsection \<open>The snapshot sent on a connection\<close>

lemma greeted_has_shadow:
  "slice_js 2 9 (random_text e) \<noteq> ''size'' \<Longrightarrow>
   (slice_js 2 9 (random_text e),
    \<lparr>s_x = 100, s_y = 100, s_vx = 0, s_vy = 0,
     s_color = randomColor (shadow_color_bytes e), s_ip = replace ''::ffff:'' [] addr\<rparr>)
   \<in> set (props (greeted e addr st))"
  by (simp add: greeted_fields assoc_set_mem)

text \<open>
  Claim C4 (the code does otherwise). The snapshot that the connection handler
  broadcasts, the second payload on the new socket, has the keys type and players only,
  no ts; its entries are made of the properties of the Map object, the second records,
  and not of the player objects of the Map: each carries the key of its property as id
  and an ip, and the record of the new connection is among them under the id of the
  welcome.
\<close>

theorem join_time_snapshot_lists_the_second_records:
  assumes "connection e ra st = Inr st'"
  shows "sent (socks st' (accepted st)) ! 1
           = JObj [(''type'', JStr ''snapshot''),
                   (''players'', JArr (map join_entry (Object_entries (props st'))))]
       \<and> js_get (sent (socks st' (accepted st)) ! 1) ''ts'' = Inr JUndefined
       \<and> (\<forall>kv. js_get (join_entry kv) ''id'' = Inr (JStr (fst kv))
               \<and> js_get (join_entry kv) ''ip'' = Inr (JStr (s_ip (snd kv))))
       \<and> (slice_js 2 9 (random_text e) = ''size''
           \<or> slice_js 2 9 (random_text e) \<in> set (map fst (Object_entries (props st'))))"
proof -
  let ?ws = "accepted st"
  have n: "1 \<le> holders ?ws st'"
    by (rule connection_registers(3) [OF assms])
  have s: "sent (socks st' ?ws) =
      welcome_msg (slice_js 2 9 (random_text e)) (replace ''::ffff:'' [] (the ra))
      # replicate (holders ?ws st') (join_snapshot st')
      @ replicate (holders ?ws st') (player_join_msg (createPlayer ?ws e))"
    by (simp add: connection_sent [OF assms] JSON_stringify_join_snapshot)
  have f: "sent (socks st' ?ws) ! 1 = join_snapshot st'"
    unfolding s using n by (rule replicate_nth_0)
  from connection_InrD [OF assms] obtain addr where ra: "ra = Some addr"
    by blast
  have "slice_js 2 9 (random_text e) \<in> set (map fst (props st'))"
    if "slice_js 2 9 (random_text e) \<noteq> ''size''"
    using greeted_has_shadow [OF that, of addr st]
    by (force simp: connection_fields(6) [OF assms] ra)
  moreover have "sent (socks st' ?ws) ! Suc 0 = join_snapshot st'"
    using f by simp
  ultimately show ?thesis
    by (auto simp: js_get_msgs set_Object_entries join_snapshot_def)
qed

theorem join_time_snapshot_lists_the_second_records_witness:
  "\<exists>st'. connection alice (Some ''::ffff:127.0.0.1'') (server_start 0) = Inr st'
     \<and> players st' = [(''0123456789abcdef'', 0)]
     \<and> sent (socks st' 0) ! 1 =
          JObj [(''type'', JStr ''snapshot''),
                (''players'', JArr [JObj [(''id'', JStr ''k3j9x2a''), (''x'', JNum 100),
                   (''y'', JNum 100), (''vx'', JNum 0), (''vy'', JNum 0),
                   (''color'', JStr ''#00ff00''), (''ip'', JStr ''127.0.0.1'')]])]"
proof -
  obtain st' where c: "connection alice (Some ''::ffff:127.0.0.1'') (server_start 0) = Inr st'"
    and p: "players st' = [(''0123456789abcdef'', 0)]"
    and q: "props st' = [(''k3j9x2a'', \<lparr>s_x = 100, s_y = 100, s_vx = 0, s_vy = 0,
                                      s_color = ''#00ff00'', s_ip = ''127.0.0.1''\<rparr>)]"
    using alice_joins by blast
  show ?thesis
    using c p join_time_snapshot_lists_the_second_records [OF c]
    by (simp add: server_start_fields q Object_entries_def not_index join_entry_def)
qed

subsection \<open>Who receives the player_join\<close>

text \<open>
  Claim C5, amended. When the connection handler has run, the player_join payload of
  the new player is the last payload on the socket of every player of the Map whose
  socket is open; the new player is in the Map and its socket is open, so the payload
  goes to the new connection itself as well.
\<close>

theorem player_join_reaches_every_open_connection:
  assumes "connection e ra st = Inr st'"
  shows "(\<forall>k a. (k, a) \<in> set (players st')
              \<and> readyState (socks st' (p_ws (heap st' a))) = OPEN
            \<longrightarrow> sent (socks st' (p_ws (heap st' a))) \<noteq> []
              \<and> last (sent (socks st' (p_ws (heap st' a))))
                  = player_join_msg (heap st' (accepted st)))
       \<and> (p_id (heap st' (accepted st)), accepted st) \<in> set (players st')
       \<and> p_ws (heap st' (accepted st)) = accepted st
       \<and> readyState (socks st' (accepted st)) = OPEN"
proof -
  let ?ws = "accepted st"
  let ?pj = "player_join_msg (createPlayer ?ws e)"
  have h: "heap st' ?ws = createPlayer ?ws e"
    by (rule connection_registers(2) [OF assms])
  have "sent (socks st' (p_ws (heap st' a))) \<noteq> []
        \<and> last (sent (socks st' (p_ws (heap st' a)))) = ?pj"
    if m: "(k, a) \<in> set (players st')"
      and o: "readyState (socks st' (p_ws (heap st' a))) = OPEN" for k a
  proof -
    let ?c = "p_ws (heap st' a)"
    have n: "1 \<le> holders ?c st'"
      by (rule holders_pos [OF m])
    obtain xs where s: "sent (socks st' ?c) =
        xs @ replicate (holders ?c st') (JSON_stringify (join_snapshot st'))
           @ replicate (holders ?c st') ?pj"
    proof (cases "?c = ?ws")
      case True
      then show ?thesis
        using that [of "[welcome_msg (slice_js 2 9 (random_text e))
                          (replace ''::ffff:'' [] (the ra))]"]
        by (simp add: connection_sent [OF assms])
    next
      case False
      with o have "readyState (socks st ?c) = OPEN"
        by (simp add: connection_fields(7) [OF assms])
      with False show ?thesis
        using that [of "sent (socks st ?c)"]
        by (simp add: connection_sent [OF assms])
    qed
    have "last (sent (socks st' ?c)) = ?pj"
      unfolding s using n by (rule last_replicate_append)
    moreover have "sent (socks st' ?c) \<noteq> []"
      unfolding s using n by (cases "holders ?c st'") simp_all
    ultimately show ?thesis by simp
  qed
  then have A: "\<forall>k a. (k, a) \<in> set (players st')
              \<and> readyState (socks st' (p_ws (heap st' a))) = OPEN
            \<longrightarrow> sent (socks st' (p_ws (heap st' a))) \<noteq> []
              \<and> last (sent (socks st' (p_ws (heap st' a))))
                  = player_join_msg (heap st' (accepted st))"
    unfolding h by blast
  have B: "(p_id (heap st' ?ws), ?ws) \<in> set (players st')"
    unfolding h by (rule connection_registers(1) [OF assms])
  have C: "p_ws (heap st' ?ws) = ?ws"
    by (simp add: h p_ws_createPlayer)
  have D: "readyState (socks st' ?ws) = OPEN"
    by (simp add: connection_fields(7) [OF assms])
  from A B C D show ?thesis by blast
qed

text \<open>
  The claim as it stands fails on the first connection of a fresh server: the only
  socket is the new one, and the player_join of the new player is written to it.
\<close>

theorem player_join_to_itself_counterexample:
  "\<exists>st'. connection alice (Some ''::ffff:127.0.0.1'') (server_start 0) = Inr st'
     \<and> players st' = [(''0123456789abcdef'', 0)]
     \<and> p_ws (heap st' 0) = 0
     \<and> last (sent (socks st' 0)) =
         JObj [(''type'', JStr ''player_join''), (''id'', JStr ''0123456789abcdef''),
               (''x'', JNum 400), (''y'', JNum 200), (''color'', JStr ''#ff8800'')]"
  using alice_joins by (auto simp: alice_values)

theorem player_join_reaches_every_open_connection_witness:
  "\<exists>st1 st2. connection alice (Some ''::ffff:127.0.0.1'') (server_start 0) = Inr st1
     \<and> connection bob (Some ''::ffff:10.0.0.7'') st1 = Inr st2
     \<and> players st2 = [(''0123456789abcdef'', 0), (''fedcba9876543210'', 1)]
     \<and> readyState (socks st2 0) = OPEN \<and> readyState (socks st2 1) = OPEN
     \<and> last (sent (socks st2 0)) = player_join_msg (createPlayer 1 bob)
     \<and> last (sent (socks st2 1)) = player_join_msg (createPlayer 1 bob)"
proof -
  obtain st1 where c1: "connection alice (Some ''::ffff:127.0.0.1'') (server_start 0) = Inr st1"
    and p1: "players st1 = [(''0123456789abcdef'', 0)]"
    and h1: "heap st1 0 = createPlayer 0 alice"
    and a1: "accepted st1 = 1"
    and q1: "props st1 = [(''k3j9x2a'', \<lparr>s_x = 100, s_y = 100, s_vx = 0, s_vy = 0,
                                       s_color = ''#00ff00'', s_ip = ''127.0.0.1''\<rparr>)]"
    and r1: "readyState (socks st1 0) = OPEN"
    using alice_joins by blast
  obtain st2 where c2: "connection bob (Some ''::ffff:10.0.0.7'') st1 = Inr st2"
    using connection_returns [of st1 bob "''::ffff:10.0.0.7''"]
    by (auto simp: has_own_def q1 bob_values)
  have p2: "players st2 = [(''0123456789abcdef'', 0), (''fedcba9876543210'', 1)]"
    by (simp add: connection_fields(1) [OF c2] p1 a1 bob_values)
  have h2: "heap st2 0 = createPlayer 0 alice" "heap st2 1 = createPlayer 1 bob"
    "heap st2 (Suc 0) = createPlayer 1 bob"
    by (simp_all add: connection_fields(2) [OF c2] a1 h1)
  have r2: "readyState (socks st2 0) = OPEN" "readyState (socks st2 1) = OPEN"
    "readyState (socks st2 (Suc 0)) = OPEN"
    by (simp_all add: connection_fields(7) [OF c2] a1 r1)
  have m0: "(''0123456789abcdef'', 0) \<in> set (players st2)
              \<and> readyState (socks st2 (p_ws (heap st2 0))) = OPEN"
    and m1: "(''fedcba9876543210'', 1) \<in> set (players st2)
              \<and> readyState (socks st2 (p_ws (heap st2 1))) = OPEN"
    by (simp_all add: p2 h2 r2 p_ws_createPlayer)
  from player_join_reaches_every_open_connection [OF c2]
  have all: "\<And>k a. (k, a) \<in> set (players st2)
               \<and> readyState (socks st2 (p_ws (heap st2 a))) = OPEN
             \<Longrightarrow> last (sent (socks st2 (p_ws (heap st2 a))))
                  = player_join_msg (heap st2 (accepted st1))"
    by blast
  have "last (sent (socks st2 0)) = player_join_msg (createPlayer 1 bob)"
    using all [OF m0] by (simp add: h2 a1 p_ws_createPlayer)
  moreover have "last (sent (socks st2 1)) = player_join_msg (createPlayer 1 bob)"
    using all [OF m1] by (simp add: h2 a1 p_ws_createPlayer)
  ultimately show ?thesis
    using c1 c2 p2 r2 by blast
qed

subsection \<open>Messages\<close>

lemma js_get_readable: "v \<noteq> JUndefined \<Longrightarrow> v \<noteq> JNull \<Longrightarrow> \<exists>x. js_get v k = Inr x"
  by (cases v) auto

lemma seen_fields:
  "players (seen now a st) = players st" "props (seen now a st) = props st"
  "socks (seen now a st) = socks st" "console (seen now a st) = console st"
  "accepted (seen now a st) = accepted st" "lastTime (seen now a st) = lastTime st"
  "heap (seen now a st) = (heap st)(a := (heap st a)\<lparr>p_lastSeen := now\<rparr>)"
  by (simp_all add: seen_def)

lemma handleMessage_unreadable:
  assumes "msg = JUndefined \<or> msg = JNull"
  shows "handleMessage now a msg st = Inl (TypeError, seen now a st)"
  using assms by (auto simp: handleMessage_def seen_def)

lemma handleMessage_input:
  assumes "js_get msg ''type'' = Inr (JStr ''input'')" and "js_get msg ''input'' = Inr inp"
  shows "handleMessage now a msg st =
     (if inp = JUndefined \<or> inp = JNull then Inl (TypeError, seen now a st)
      else Inr ((seen now a st)\<lparr>heap := (heap (seen now a st))(a := (heap (seen now a st) a)\<lparr>p_input :=
                  \<lparr>up = coerced inp ''up'', down = coerced inp ''down'',
                   left = coerced inp ''left'', right = coerced inp ''right''\<rparr>\<rparr>)\<rparr>))"
proof (cases "inp = JUndefined \<or> inp = JNull")
  case True
  then have "js_get inp k = Inl TypeError" for k
    by auto
  then show ?thesis
    using assms True by (simp add: handleMessage_def Let_def seen_def)
next
  case False
  then obtain u d l r where g: "js_get inp ''up'' = Inr u" "js_get inp ''down'' = Inr d"
    "js_get inp ''left'' = Inr l" "js_get inp ''right'' = Inr r"
    using js_get_readable [of inp] by metis
  show ?thesis
    using assms False by (simp add: handleMessage_def Let_def g coerced_def seen_def)
qed

lemma handleMessage_ping:
  assumes "js_get msg ''type'' = Inr (JStr ''ping'')"
  shows "\<exists>ts. js_get msg ''ts'' = Inr ts
           \<and> handleMessage now a msg st =
               ws_send (p_ws (heap st a))
                 (JSON_stringify (JObj [(''type'', JStr ''pong''), (''ts'', ts)]))
                 (seen now a st)"
proof -
  from assms have "msg \<noteq> JUndefined" "msg \<noteq> JNull"
    by auto
  then obtain ts where ts: "js_get msg ''ts'' = Inr ts"
    using js_get_readable by blast
  show ?thesis
    using assms by (simp add: ts handleMessage_def Let_def seen_def)
qed

lemma handleMessage_other:
  assumes "js_get msg ''type'' = Inr t" and "t \<noteq> JStr ''input''" and "t \<noteq> JStr ''ping''"
  shows "handleMessage now a msg st = Inr (seen now a st)"
  unfolding handleMessage_def Let_def seen_def
  by (simp only: assms sum.case if_False)

lemma coerced_missing: "map_of kvs k = None \<Longrightarrow> \<not> coerced (JObj kvs) k"
  by (simp add: coerced_def)

lemma coerced_not_object: "(\<And>kvs. v \<noteq> JObj kvs) \<Longrightarrow> \<not> coerced v k"
  by (cases v) (auto simp: coerced_def)


lemma ws_send_frame:
  assumes "ws_send c raw st = Inr s \<or> ws_send c raw st = Inl (err, s)"
  shows "players s = players st" and "props s = props st" and "console s = console st"
    and "accepted s = accepted st" and "lastTime s = lastTime st" and "heap s = heap st"
    and "readyState (socks s d) = readyState (socks st d)"
  using assms by (auto simp: ws_send_def split: if_splits)

lemma ws_send_throw: "ws_send c raw st = Inl (err, s) \<Longrightarrow> s = st"
  by (auto simp: ws_send_def split: if_splits)

text \<open>The four ways through \<open>handleMessage\<close>.\<close>

lemma handleMessage_cases:
  obtains (unreadable) "msg = JUndefined \<or> msg = JNull"
      "handleMessage now a msg st = Inl (TypeError, seen now a st)"
  | (input) inp where "js_get msg ''type'' = Inr (JStr ''input'')"
      "js_get msg ''input'' = Inr inp"
  | (ping) ts where "js_get msg ''type'' = Inr (JStr ''ping'')"
      "handleMessage now a msg st =
         ws_send (p_ws (heap st a))
           (JSON_stringify (JObj [(''type'', JStr ''pong''), (''ts'', ts)])) (seen now a st)"
  | (other) t where "js_get msg ''type'' = Inr t" "t \<noteq> JStr ''input''" "t \<noteq> JStr ''ping''"
      "handleMessage now a msg st = Inr (seen now a st)"
proof (cases "msg = JUndefined \<or> msg = JNull")
  case True
  then show ?thesis
    using unreadable handleMessage_unreadable by blast
next
  case False
  then obtain t where t: "js_get msg ''type'' = Inr t"
    using js_get_readable by blast
  from False obtain inp where i: "js_get msg ''input'' = Inr inp"
    using js_get_readable by blast
  consider "t = JStr ''input''" | "t = JStr ''ping''" | "t \<noteq> JStr ''input''" "t \<noteq> JStr ''ping''"
    by blast
  then show ?thesis
  proof cases
    case 1
    then show ?thesis using input t i by blast
  next
    case 2
    then show ?thesis using ping handleMessage_ping t by blast
  next
    case 3
    then show ?thesis using other handleMessage_other t by blast
  qed
qed

text \<open>What \<open>handleMessage\<close> leaves alone, whether it returns or throws.\<close>

lemma handleMessage_frame:
  assumes "handleMessage now a msg st = Inr s \<or> handleMessage now a msg st = Inl (err, s)"
  shows "players s = players st \<and> props s = props st \<and> console s = console st
       \<and> accepted s = accepted st \<and> lastTime s = lastTime st
       \<and> (\<forall>c. readyState (socks s c) = readyState (socks st c))
       \<and> (\<forall>b. b \<noteq> a \<longrightarrow> heap s b = heap st b)
       \<and> p_ws (heap s a) = p_ws (heap st a) \<and> p_id (heap s a) = p_id (heap st a)
       \<and> p_lastSeen (heap s a) = now"
proof (cases msg now a st rule: handleMessage_cases)
  case unreadable
  with assms show ?thesis
    by (auto simp: seen_fields)
next
  case (input inp)
  with assms show ?thesis
    by (auto simp: handleMessage_input seen_fields split: if_splits)
next
  case (ping ts)
  with assms have "ws_send (p_ws (heap st a))
           (JSON_stringify (JObj [(''type'', JStr ''pong''), (''ts'', ts)])) (seen now a st) = Inr s
        \<or> ws_send (p_ws (heap st a))
           (JSON_stringify (JObj [(''type'', JStr ''pong''), (''ts'', ts)])) (seen now a st) = Inl (err, s)"
    by simp
  from ws_send_frame [OF this] show ?thesis
    by (simp add: seen_fields)
next
  case (other t)
  with assms show ?thesis
    by (auto simp: seen_fields)
qed

lemma handleMessage_throw:
  assumes "handleMessage now a msg st = Inl (err, s)"
  shows "s = seen now a st"
proof (cases msg now a st rule: handleMessage_cases)
  case unreadable
  with assms show ?thesis by simp
next
  case (input inp)
  with assms show ?thesis
    by (auto simp: handleMessage_input split: if_splits)
next
  case (ping ts)
  with assms show ?thesis
    by (auto dest: ws_send_throw)
next
  case (other t)
  with assms show ?thesis by simp
qed

lemma console_warn_fields:
  "players (console_warn x e st) = players st"
  "props (console_warn x e st) = props st"
  "heap (console_warn x e st) = heap st"
  "socks (console_warn x e st) = socks st"
  "lastTime (console_warn x e st) = lastTime st"
  "accepted (console_warn x e st) = accepted st"
  "console (console_warn x e st) = console st @ [Warn x e]"
  by (simp_all add: console_warn_def)

lemma on_message_returns: "\<exists>st'. on_message now a parsed st = Inr st'"
  by (auto simp: on_message_def split: sum.splits)

text \<open>
  Claim C6, amended. An input message whose input field is there and is not null
  replaces the stored input by the coercion of the four fields of that value, whatever
  was stored before; a field that the value does not have counts as false, and so does
  every field of a value that is no object. When
  the input field is missing or null, \<open>handleMessage\<close> throws a TypeError and
  the stored input stays as it was.
\<close>

theorem input_message_overwrites_input:
  assumes "js_get msg ''type'' = Inr (JStr ''input'')" and "js_get msg ''input'' = Inr inp"
  shows "(inp \<noteq> JUndefined \<and> inp \<noteq> JNull \<longrightarrow>
           (\<exists>st'. handleMessage now a msg st = Inr st'
              \<and> p_input (heap st' a) =
                  \<lparr>up = coerced inp ''up'', down = coerced inp ''down'',
                   left = coerced inp ''left'', right = coerced inp ''right''\<rparr>))
       \<and> (inp = JUndefined \<or> inp = JNull \<longrightarrow>
           (\<exists>st'. handleMessage now a msg st = Inl (TypeError, st')
              \<and> p_input (heap st' a) = p_input (heap st a)))
       \<and> (\<forall>kvs k. inp = JObj kvs \<and> map_of kvs k = None \<longrightarrow> \<not> coerced inp k)
       \<and> ((\<forall>kvs. inp \<noteq> JObj kvs) \<longrightarrow> (\<forall>k. \<not> coerced inp k))"
  by (auto simp: handleMessage_input [OF assms] seen_fields coerced_missing coerced_not_object)

text \<open>
  The claim as it stands fails on the message \<open>{type: "input"}\<close> for a player that
  holds the right key: the handler throws, and the stored input is not all false.
\<close>

theorem absent_input_object_counterexample:
  "\<exists>s. handleMessage 5 0 (JObj [(''type'', JStr ''input'')]) one_player = Inl (TypeError, s)
     \<and> p_input (heap s 0) = \<lparr>up = False, down = False, left = False, right = True\<rparr>"
proof -
  have "handleMessage 5 0 (JObj [(''type'', JStr ''input'')]) one_player
        = Inl (TypeError, seen 5 0 one_player)"
    by (simp add: handleMessage_input [of _ JUndefined])
  moreover have "p_input (heap (seen 5 0 one_player) 0)
        = \<lparr>up = False, down = False, left = False, right = True\<rparr>"
    by (simp add: seen_fields one_player_def runner_def)
  ultimately show ?thesis by blast
qed

theorem input_message_overwrites_input_witness:
  "js_get (JObj [(''type'', JStr ''input''),
                 (''input'', JObj [(''up'', JBool True), (''left'', JNum 1)])]) ''type''
     = Inr (JStr ''input'')
   \<and> js_get (JObj [(''type'', JStr ''input''),
                   (''input'', JObj [(''up'', JBool True), (''left'', JNum 1)])]) ''input''
     = Inr (JObj [(''up'', JBool True), (''left'', JNum 1)])
   \<and> (\<exists>st'. handleMessage 5 0
               (JObj [(''type'', JStr ''input''),
                      (''input'', JObj [(''up'', JBool True), (''left'', JNum 1)])])
               one_player = Inr st'
          \<and> p_input (heap st' 0) = \<lparr>up = True, down = False, left = True, right = False\<rparr>)"
proof -
  let ?inp = "JObj [(''up'', JBool True), (''left'', JNum 1)]"
  let ?msg = "JObj [(''type'', JStr ''input''), (''input'', ?inp)]"
  have t: "js_get ?msg ''type'' = Inr (JStr ''input'')"
    by simp
  have i: "js_get ?msg ''input'' = Inr ?inp"
    by simp
  have c: "coerced ?inp ''up''" "\<not> coerced ?inp ''down''" "coerced ?inp ''left''"
    "\<not> coerced ?inp ''right''"
    by (simp_all add: coerced_def)
  show ?thesis
    using t i input_message_overwrites_input [OF t i, of 5 0 one_player]
    by (simp add: c)
qed

subsection \<open>Failures\<close>

text \<open>The messages on which \<open>handleMessage\<close> throws.\<close>

lemma handleMessage_throws_iff:
  "(\<exists>err s. handleMessage now a msg st = Inl (err, s)) \<longleftrightarrow>
     msg = JUndefined \<or> msg = JNull
     \<or> (js_get msg ''type'' = Inr (JStr ''input'')
         \<and> (js_get msg ''input'' = Inr JUndefined \<or> js_get msg ''input'' = Inr JNull))
     \<or> (js_get msg ''type'' = Inr (JStr ''ping'')
         \<and> readyState (socks st (p_ws (heap st a))) = CONNECTING)"
proof (cases msg now a st rule: handleMessage_cases)
  case unreadable
  then show ?thesis by auto
next
  case (input inp)
  then show ?thesis
    by (auto simp: handleMessage_input)
next
  case (ping ts)
  then show ?thesis
    by (auto simp: ws_send_def seen_fields)
next
  case (other t)
  then show ?thesis
    by auto
qed

lemma on_message_eq:
  "on_message now a parsed st =
     (case parsed of
        Inl err \<Rightarrow> Inr (console_warn ''Invalid message'' err st)
      | Inr msg \<Rightarrow>
          (case handleMessage now a msg st of
             Inl (err, s) \<Rightarrow> Inr (console_warn ''Invalid message'' err (seen now a st))
           | Inr st' \<Rightarrow> Inr st'))"
  by (auto simp: on_message_def split: sum.splits dest: handleMessage_throw)

lemma on_message_frame:
  assumes "on_message now a parsed st = Inr st'"
  shows "players st' = players st \<and> props st' = props st
       \<and> (\<forall>c. readyState (socks st' c) = readyState (socks st c))
       \<and> (\<forall>b. b \<noteq> a \<longrightarrow> heap st' b = heap st b)"
proof (cases parsed)
  case (Inl err)
  with assms show ?thesis
    by (auto simp: on_message_eq console_warn_fields)
next
  case (Inr msg)
  show ?thesis
  proof (cases "handleMessage now a msg st")
    case (Inl es)
    with assms Inr show ?thesis
      by (auto simp: on_message_eq console_warn_fields seen_fields split: prod.splits)
  next
    case r: (Inr s)
    with assms Inr have "st' = s"
      by (simp add: on_message_eq)
    with r handleMessage_frame [of now a msg st st'] show ?thesis
      by simp
  qed
qed

lemma broadcast_frame:
  assumes "broadcast obj st = Inr st'"
  shows "players st' = players st \<and> heap st' = heap st \<and> props st' = props st
       \<and> (\<forall>c. readyState (socks st' c) = readyState (socks st c))
       \<and> (\<forall>c. readyState (socks st c) \<noteq> OPEN \<longrightarrow> socks st' c = socks st c)
       \<and> (\<forall>c. readyState (socks st c) = OPEN \<longrightarrow>
             sent (socks st' c) = sent (socks st c) @ replicate (holders c st) (JSON_stringify obj))"
  using assms
  by (auto simp: broadcast_eq deliver_fields deliver_socks holders_def split: if_splits)


lemma transport_fields:
  "players (transport c rs st) = players st" "props (transport c rs st) = props st"
  "heap (transport c rs st) = heap st" "accepted (transport c rs st) = accepted st"
  "console (transport c rs st) = console st" "lastTime (transport c rs st) = lastTime st"
  "readyState (socks (transport c rs st) d) = (if d = c then rs else readyState (socks st d))"
  "sent (socks (transport c rs st) d) = sent (socks st d)"
  "has_own k (transport c rs st) = has_own k st"
  by (simp_all add: transport_def has_own_def)

lemma on_message_ignored:
  assumes "js_get msg ''type'' = Inr t" and "t \<noteq> JStr ''input''" and "t \<noteq> JStr ''ping''"
  shows "on_message now a (Inr msg) st = Inr (seen now a st)"
  by (simp add: on_message_eq handleMessage_other [OF assms])

lemma on_message_ping:
  assumes "js_get msg ''type'' = Inr (JStr ''ping'')"
    and "readyState (socks st (p_ws (heap st a))) = OPEN"
  shows "\<exists>ts st'. js_get msg ''ts'' = Inr ts
           \<and> on_message now a (Inr msg) st = Inr st'
           \<and> console st' = console st
           \<and> sent (socks st' (p_ws (heap st a)))
               = sent (socks st (p_ws (heap st a)))
                 @ [JSON_stringify (JObj [(''type'', JStr ''pong''), (''ts'', ts)])]"
proof -
  from handleMessage_ping [OF assms(1), of now a st] obtain ts
    where ts: "js_get msg ''ts'' = Inr ts"
      and h: "handleMessage now a msg st =
               ws_send (p_ws (heap st a))
                 (JSON_stringify (JObj [(''type'', JStr ''pong''), (''ts'', ts)])) (seen now a st)"
    by blast
  let ?raw = "JSON_stringify (JObj [(''type'', JStr ''pong''), (''ts'', ts)])"
  let ?c = "p_ws (heap st a)"
  let ?s = "seen now a st"
  have "ws_send ?c ?raw ?s
        = Inr (?s\<lparr>socks := (socks ?s)(?c := (socks ?s ?c)\<lparr>sent := sent (socks ?s ?c) @ [?raw]\<rparr>)\<rparr>)"
    using assms(2) by (simp add: ws_send_def seen_fields)
  with h ts show ?thesis
    by (simp add: on_message_eq seen_fields)
qed

lemma on_message_input:
  assumes "js_get msg ''type'' = Inr (JStr ''input'')" and "js_get msg ''input'' = Inr inp"
    and "inp \<noteq> JUndefined" and "inp \<noteq> JNull"
  shows "\<exists>st'. on_message now a (Inr msg) st = Inr st'
           \<and> console st' = console st
           \<and> p_input (heap st' a) =
               \<lparr>up = coerced inp ''up'', down = coerced inp ''down'',
                left = coerced inp ''left'', right = coerced inp ''right''\<rparr>"
  using assms(3,4)
  by (simp add: on_message_eq handleMessage_input [OF assms(1,2)] seen_fields)

text \<open>
  Claim C8, amended. The message handler never throws, and no message changes the Map,
  the state of a socket or another player. A text that \<open>JSON.parse\<close> rejects, and
  a message on which \<open>handleMessage\<close> throws, are logged by a warning and dropped: of
  the state only the console and the \<open>lastSeen\<close> of the player change.
  \<open>handleMessage\<close> throws on these messages only: null; type input with the input
  field missing or null; a ping while the socket is still connecting. Every other
  message leaves the console as it is: a message of another type or of none is
  ignored, a ping on an open socket is answered, with or without ts, and an input
  message whose input value is not null replaces the stored input. A broadcast that
  runs writes nothing to a socket that is not open and changes no state of a socket,
  and what it writes to an open socket does not depend on the other sockets.
\<close>

theorem failures_are_isolated:
  "(\<exists>st'. on_message now a parsed st = Inr st')
   \<and> (\<forall>st'. on_message now a parsed st = Inr st' \<longrightarrow>
          players st' = players st \<and> props st' = props st
          \<and> (\<forall>c. readyState (socks st' c) = readyState (socks st c))
          \<and> (\<forall>b. b \<noteq> a \<longrightarrow> heap st' b = heap st b))
   \<and> (\<forall>err. parsed = Inl err \<longrightarrow>
          on_message now a parsed st = Inr (console_warn ''Invalid message'' err st))
   \<and> (\<forall>msg err s. parsed = Inr msg \<and> handleMessage now a msg st = Inl (err, s) \<longrightarrow>
          on_message now a parsed st
            = Inr (console_warn ''Invalid message'' err (seen now a st)))
   \<and> (\<forall>msg. (\<exists>err s. handleMessage now a msg st = Inl (err, s)) =
          (msg = JUndefined \<or> msg = JNull
           \<or> (js_get msg ''type'' = Inr (JStr ''input'')
               \<and> (js_get msg ''input'' = Inr JUndefined \<or> js_get msg ''input'' = Inr JNull))
           \<or> (js_get msg ''type'' = Inr (JStr ''ping'')
               \<and> readyState (socks st (p_ws (heap st a))) = CONNECTING)))
   \<and> (\<forall>msg t. parsed = Inr msg \<and> js_get msg ''type'' = Inr t
            \<and> t \<noteq> JStr ''input'' \<and> t \<noteq> JStr ''ping'' \<longrightarrow>
          on_message now a parsed st = Inr (seen now a st))
   \<and> (\<forall>msg. parsed = Inr msg \<and> js_get msg ''type'' = Inr (JStr ''ping'')
            \<and> readyState (socks st (p_ws (heap st a))) = OPEN \<longrightarrow>
          (\<exists>ts st'. js_get msg ''ts'' = Inr ts
             \<and> on_message now a parsed st = Inr st'
             \<and> console st' = console st
             \<and> sent (socks st' (p_ws (heap st a)))
                 = sent (socks st (p_ws (heap st a)))
                   @ [JSON_stringify (JObj [(''type'', JStr ''pong''), (''ts'', ts)])]))
   \<and> (\<forall>msg inp. parsed = Inr msg \<and> js_get msg ''type'' = Inr (JStr ''input'')
            \<and> js_get msg ''input'' = Inr inp \<and> inp \<noteq> JUndefined \<and> inp \<noteq> JNull \<longrightarrow>
          (\<exists>st'. on_message now a parsed st = Inr st'
             \<and> console st' = console st
             \<and> p_input (heap st' a) =
                 \<lparr>up = coerced inp ''up'', down = coerced inp ''down'',
                  left = coerced inp ''left'', right = coerced inp ''right''\<rparr>))
   \<and> (\<forall>obj st'. broadcast obj st = Inr st' \<longrightarrow>
          players st' = players st \<and> heap st' = heap st
          \<and> (\<forall>c. readyState (socks st' c) = readyState (socks st c))
          \<and> (\<forall>c. readyState (socks st c) \<noteq> OPEN \<longrightarrow> socks st' c = socks st c)
          \<and> (\<forall>c. readyState (socks st c) = OPEN \<longrightarrow>
                sent (socks st' c)
                  = sent (socks st c) @ replicate (holders c st) (JSON_stringify obj)))"
proof -
  have 1: "\<exists>st'. on_message now a parsed st = Inr st'"
    by (rule on_message_returns)
  have 2: "\<forall>st'. on_message now a parsed st = Inr st' \<longrightarrow>
          players st' = players st \<and> props st' = props st
          \<and> (\<forall>c. readyState (socks st' c) = readyState (socks st c))
          \<and> (\<forall>b. b \<noteq> a \<longrightarrow> heap st' b = heap st b)"
    using on_message_frame by blast
  have 3: "\<forall>err. parsed = Inl err \<longrightarrow>
          on_message now a parsed st = Inr (console_warn ''Invalid message'' err st)"
    by (simp add: on_message_eq)
  have 4: "\<forall>msg err s. parsed = Inr msg \<and> handleMessage now a msg st = Inl (err, s) \<longrightarrow>
          on_message now a parsed st
            = Inr (console_warn ''Invalid message'' err (seen now a st))"
    by (simp add: on_message_eq)
  have 5: "\<forall>msg. (\<exists>err s. handleMessage now a msg st = Inl (err, s)) =
          (msg = JUndefined \<or> msg = JNull
           \<or> (js_get msg ''type'' = Inr (JStr ''input'')
               \<and> (js_get msg ''input'' = Inr JUndefined \<or> js_get msg ''input'' = Inr JNull))
           \<or> (js_get msg ''type'' = Inr (JStr ''ping'')
               \<and> readyState (socks st (p_ws (heap st a))) = CONNECTING))"
    using handleMessage_throws_iff by blast
  have 6: "\<forall>msg t. parsed = Inr msg \<and> js_get msg ''type'' = Inr t
            \<and> t \<noteq> JStr ''input'' \<and> t \<noteq> JStr ''ping'' \<longrightarrow>
          on_message now a parsed st = Inr (seen now a st)"
    using on_message_ignored by blast
  have 7: "\<forall>msg. parsed = Inr msg \<and> js_get msg ''type'' = Inr (JStr ''ping'')
            \<and> readyState (socks st (p_ws (heap st a))) = OPEN \<longrightarrow>
          (\<exists>ts st'. js_get msg ''ts'' = Inr ts
             \<and> on_message now a parsed st = Inr st'
             \<and> console st' = console st
             \<and> sent (socks st' (p_ws (heap st a)))
                 = sent (socks st (p_ws (heap st a)))
                   @ [JSON_stringify (JObj [(''type'', JStr ''pong''), (''ts'', ts)])])"
    using on_message_ping by blast
  have 8: "\<forall>msg inp. parsed = Inr msg \<and> js_get msg ''type'' = Inr (JStr ''input'')
            \<and> js_get msg ''input'' = Inr inp \<and> inp \<noteq> JUndefined \<and> inp \<noteq> JNull \<longrightarrow>
          (\<exists>st'. on_message now a parsed st = Inr st'
             \<and> console st' = console st
             \<and> p_input (heap st' a) =
                 \<lparr>up = coerced inp ''up'', down = coerced inp ''down'',
                  left = coerced inp ''left'', right = coerced inp ''right''\<rparr>)"
    using on_message_input by blast
  have 9: "\<forall>obj st'. broadcast obj st = Inr st' \<longrightarrow>
          players st' = players st \<and> heap st' = heap st
          \<and> (\<forall>c. readyState (socks st' c) = readyState (socks st c))
          \<and> (\<forall>c. readyState (socks st c) \<noteq> OPEN \<longrightarrow> socks st' c = socks st c)
          \<and> (\<forall>c. readyState (socks st c) = OPEN \<longrightarrow>
                sent (socks st' c)
                  = sent (socks st c) @ replicate (holders c st) (JSON_stringify obj))"
    using broadcast_frame by blast
  from 1 2 3 4 5 6 7 8 9 show ?thesis
    by (intro conjI)
qed

text \<open>
  The claim as it stands fails on messages that lack fields and do not make the handler
  throw, for a player that holds the right key: \<open>{}\<close> is ignored with no warning,
  \<open>{type: "ping"}\<close> is answered with no warning, and \<open>{type: "input", input: "abc"}\<close>
  is not dropped, it sets the four directions to false, with no warning.
\<close>

theorem malformed_without_warning_counterexample:
  "on_message 5 0 (Inr (JObj [])) one_player = Inr (seen 5 0 one_player)
   \<and> console (seen 5 0 one_player) = []
   \<and> (\<exists>st'. on_message 5 0 (Inr (JObj [(''type'', JStr ''ping'')])) one_player = Inr st'
          \<and> console st' = []
          \<and> sent (socks st' 0) = [JObj [(''type'', JStr ''pong'')]])
   \<and> (\<exists>st'. on_message 5 0
               (Inr (JObj [(''type'', JStr ''input''), (''input'', JStr ''abc'')]))
               one_player = Inr st'
          \<and> console st' = []
          \<and> p_input (heap one_player 0)
              = \<lparr>up = False, down = False, left = False, right = True\<rparr>
          \<and> p_input (heap st' 0)
              = \<lparr>up = False, down = False, left = False, right = False\<rparr>)"
proof -
  have f: "console one_player = []" "p_ws (heap one_player 0) = 0"
    "readyState (socks one_player 0) = OPEN" "sent (socks one_player 0) = []"
    "p_input (heap one_player 0) = \<lparr>up = False, down = False, left = False, right = True\<rparr>"
    by (simp_all add: one_player_def server_start_def runner_def)
  have a: "on_message 5 0 (Inr (JObj [])) one_player = Inr (seen 5 0 one_player)"
    by (rule on_message_ignored [where t = JUndefined]) simp_all
  have b: "console (seen 5 0 one_player) = []"
    by (simp add: seen_fields f)
  have c: "\<exists>st'. on_message 5 0 (Inr (JObj [(''type'', JStr ''ping'')])) one_player = Inr st'
          \<and> console st' = []
          \<and> sent (socks st' 0) = [JObj [(''type'', JStr ''pong'')]]"
    using on_message_ping [of "JObj [(''type'', JStr ''ping'')]" one_player 0 5]
    by (auto simp: f)
  have d: "\<exists>st'. on_message 5 0
               (Inr (JObj [(''type'', JStr ''input''), (''input'', JStr ''abc'')]))
               one_player = Inr st'
          \<and> console st' = []
          \<and> p_input (heap st' 0)
              = \<lparr>up = False, down = False, left = False, right = False\<rparr>"
    using on_message_input [of "JObj [(''type'', JStr ''input''), (''input'', JStr ''abc'')]"
        "JStr ''abc''" 5 0 one_player]
    by (simp add: f coerced_def)
  from a b c d f(5) show ?thesis
    by blast
qed

theorem failures_are_isolated_witness:
  "on_message 5 0 (Inl SyntaxError) one_player
     = Inr (console_warn ''Invalid message'' SyntaxError one_player)
   \<and> handleMessage 5 0 (JObj [(''type'', JStr ''input'')]) one_player
     = Inl (TypeError, seen 5 0 one_player)
   \<and> on_message 5 0 (Inr (JObj [(''type'', JStr ''input'')])) one_player
     = Inr (console_warn ''Invalid message'' TypeError (seen 5 0 one_player))
   \<and> console (console_warn ''Invalid message'' TypeError (seen 5 0 one_player))
     = [Warn ''Invalid message'' TypeError]
   \<and> readyState (socks (console_warn ''Invalid message'' TypeError (seen 5 0 one_player)) 0)
     = OPEN
   \<and> on_message 5 0 (Inr (JObj [(''type'', JStr ''bogus'')])) one_player
     = Inr (seen 5 0 one_player)
   \<and> (\<exists>st'. on_message 5 0 (Inr (JObj [(''type'', JStr ''ping''), (''ts'', JNum 7)]))
               one_player = Inr st'
          \<and> console st' = []
          \<and> sent (socks st' 0) = [JObj [(''type'', JStr ''pong''), (''ts'', JNum 7)]])
   \<and> (\<exists>st'. on_message 5 0
               (Inr (JObj [(''type'', JStr ''input''),
                           (''input'', JObj [(''up'', JBool True)])]))
               one_player = Inr st'
          \<and> console st' = []
          \<and> p_input (heap st' 0)
              = \<lparr>up = True, down = False, left = False, right = False\<rparr>)
   \<and> (\<exists>st'. broadcast (remove_msg ''00000000000000a2'') (transport 0 CLOSING one_player)
               = Inr st'
          \<and> readyState (socks (transport 0 CLOSING one_player) 0) = CLOSING
          \<and> socks st' 0 = socks (transport 0 CLOSING one_player) 0
          \<and> sent (socks st' 0) = [])"
proof -
  have h: "handleMessage 5 0 (JObj [(''type'', JStr ''input'')]) one_player
        = Inl (TypeError, seen 5 0 one_player)"
    by (simp add: handleMessage_input [of _ JUndefined])
  have c: "console (console_warn ''Invalid message'' TypeError (seen 5 0 one_player))
        = [Warn ''Invalid message'' TypeError]"
    by (simp add: console_warn_fields seen_fields one_player_def server_start_def)
  have r: "readyState (socks (console_warn ''Invalid message'' TypeError (seen 5 0 one_player)) 0)
        = OPEN"
    by (simp add: console_warn_fields seen_fields one_player_def)
  note F = failures_are_isolated [of 5 0 "Inl SyntaxError" one_player]
  note G = failures_are_isolated [of 5 0 "Inr (JObj [(''type'', JStr ''input'')])" one_player]
  note H = failures_are_isolated [of 5 0 "Inr (JObj [(''type'', JStr ''bogus'')])" one_player]
  have a: "on_message 5 0 (Inl SyntaxError) one_player
     = Inr (console_warn ''Invalid message'' SyntaxError one_player)"
    using F [THEN conjunct2, THEN conjunct2, THEN conjunct1] by simp
  have b: "on_message 5 0 (Inr (JObj [(''type'', JStr ''input'')])) one_player
     = Inr (console_warn ''Invalid message'' TypeError (seen 5 0 one_player))"
    using G [THEN conjunct2, THEN conjunct2, THEN conjunct2, THEN conjunct1, rule_format,
        of "JObj [(''type'', JStr ''input'')]" TypeError "seen 5 0 one_player"] h
    by simp
  have g: "on_message 5 0 (Inr (JObj [(''type'', JStr ''bogus'')])) one_player
     = Inr (seen 5 0 one_player)"
    using H [THEN conjunct2, THEN conjunct2, THEN conjunct2, THEN conjunct2, THEN conjunct2,
        THEN conjunct1, rule_format, of "JObj [(''type'', JStr ''bogus'')]" "JStr ''bogus''"]
    by simp
  have f: "console one_player = []" "p_ws (heap one_player 0) = 0"
    "readyState (socks one_player 0) = OPEN" "sent (socks one_player 0) = []"
    by (simp_all add: one_player_def server_start_def runner_def)
  have p: "\<exists>st'. on_message 5 0 (Inr (JObj [(''type'', JStr ''ping''), (''ts'', JNum 7)]))
               one_player = Inr st'
          \<and> console st' = []
          \<and> sent (socks st' 0) = [JObj [(''type'', JStr ''pong''), (''ts'', JNum 7)]]"
    using failures_are_isolated
        [of 5 0 "Inr (JObj [(''type'', JStr ''ping''), (''ts'', JNum 7)])" one_player,
         THEN conjunct2, THEN conjunct2, THEN conjunct2, THEN conjunct2, THEN conjunct2,
         THEN conjunct2, THEN conjunct1, rule_format,
         of "JObj [(''type'', JStr ''ping''), (''ts'', JNum 7)]"]
    by (auto simp: f)
  have i: "\<exists>st'. on_message 5 0
               (Inr (JObj [(''type'', JStr ''input''),
                           (''input'', JObj [(''up'', JBool True)])]))
               one_player = Inr st'
          \<and> console st' = []
          \<and> p_input (heap st' 0)
              = \<lparr>up = True, down = False, left = False, right = False\<rparr>"
    using failures_are_isolated
        [of 5 0 "Inr (JObj [(''type'', JStr ''input''),
                           (''input'', JObj [(''up'', JBool True)])])" one_player,
         THEN conjunct2, THEN conjunct2, THEN conjunct2, THEN conjunct2, THEN conjunct2,
         THEN conjunct2, THEN conjunct2, THEN conjunct1, rule_format,
         of "JObj [(''type'', JStr ''input''), (''input'', JObj [(''up'', JBool True)])]"
            "JObj [(''up'', JBool True)]"]
    by (simp add: f coerced_def)
  let ?t = "transport 0 CLOSING one_player"
  obtain st' where bc: "broadcast (remove_msg ''00000000000000a2'') ?t = Inr st'"
    by (simp add: broadcast_eq transport_fields has_own_def one_player_def server_start_def)
  have cl: "readyState (socks ?t 0) = CLOSING" "sent (socks ?t 0) = []"
    by (simp_all add: transport_fields one_player_def)
  have "socks st' 0 = socks ?t 0"
    using failures_are_isolated [of 5 0 "Inl SyntaxError" ?t, THEN conjunct2, THEN conjunct2,
        THEN conjunct2, THEN conjunct2, THEN conjunct2, THEN conjunct2, THEN conjunct2,
        THEN conjunct2, rule_format, of "remove_msg ''00000000000000a2''" st']
      bc cl(1)
    by simp
  with bc cl have e: "\<exists>st'. broadcast (remove_msg ''00000000000000a2'') ?t = Inr st'
          \<and> readyState (socks ?t 0) = CLOSING
          \<and> socks st' 0 = socks ?t 0
          \<and> sent (socks st' 0) = []"
    by auto
  from a h b c r g p i e show ?thesis
    by (intro conjI)
qed

subsection \<open>Disconnecting\<close>

lemma on_close_eq:
  "on_close a st =
     (if has_own ''delete'' st then Inl (TypeError, st)
      else if has_own ''values'' st
      then Inl (TypeError, st\<lparr>players := filter (\<lambda>kv. fst kv \<noteq> p_id (heap st a)) (players st)\<rparr>)
      else Inr (console_log ''Player disconnected'' (p_id (heap st a))
             (deliver (remove_msg (p_id (heap st a)))
                (map snd (filter (\<lambda>kv. fst kv \<noteq> p_id (heap st a)) (players st)))
                (st\<lparr>players := filter (\<lambda>kv. fst kv \<noteq> p_id (heap st a)) (players st)\<rparr>))))"
  by (simp add: on_close_def Map_delete_def broadcast_eq has_own_def JSON_stringify_msgs
        deliver_fields)

lemma on_close_fields:
  assumes "on_close a st = Inr st'"
  shows "players st' = filter (\<lambda>kv. fst kv \<noteq> p_id (heap st a)) (players st)"
    and "props st' = props st" and "heap st' = heap st" and "accepted st' = accepted st"
    and "lastTime st' = lastTime st"
    and "console st' = console st @ [Log ''Player disconnected'' (p_id (heap st a))]"
    and "readyState (socks st' c) = readyState (socks st c)"
    and "sent (socks st' c) =
           (if readyState (socks st c) = OPEN
            then sent (socks st c) @ replicate (holders c st') (remove_msg (p_id (heap st a)))
            else sent (socks st c))"
  using assms
  by (auto simp: on_close_eq console_log_fields deliver_fields deliver_socks holders_def
           split: if_splits)

lemma on_close_returns:
  "\<not> has_own ''delete'' st \<Longrightarrow> \<not> has_own ''values'' st \<Longrightarrow> \<exists>st'. on_close a st = Inr st'"
  by (simp add: on_close_eq)

subsection \<open>The states of a running server\<close>

lemma wf_iff:
  "wf st \<longleftrightarrow> distinct (map fst (players st)) \<and> distinct (map snd (players st))
     \<and> (\<forall>(k, a) \<in> set (players st).
           a < accepted st \<and> p_ws (heap st a) = a \<and> p_id (heap st a) = k)"
  by (simp add: wf_def list_all_iff)

lemma count_in_distinct:
  "distinct xs \<Longrightarrow> length (filter (\<lambda>a. a = c) xs) = (if c \<in> set xs then 1 else 0)"
  by (induction xs) auto

lemma wf_holders:
  assumes "wf st"
  shows "holders c st = (if c \<in> set (map snd (players st)) then 1 else 0)"
proof -
  have "filter (\<lambda>a. p_ws (heap st a) = c) (map snd (players st))
        = filter (\<lambda>a. a = c) (map snd (players st))"
    using assms by (intro filter_cong) (auto simp: wf_iff)
  then show ?thesis
    using assms count_in_distinct [of "map snd (players st)" c]
    by (simp add: holders_def wf_iff)
qed

lemma wf_server_start: "wf (server_start t)"
  by (simp add: wf_def server_start_def)

lemma wf_connection:
  assumes "connection e ra st = Inr st'" and "wf st"
  shows "wf st'"
proof -
  let ?ws = "accepted st"
  let ?k = "p_id (createPlayer ?ws e)"
  have fresh: "?ws \<notin> set (map snd (players st))"
    using assms(2) by (auto simp: wf_iff)
  have d1: "distinct (map fst (players st'))"
    using assms(2) by (simp add: connection_fields(1) [OF assms(1)] assoc_set_distinct_keys wf_iff)
  have d2: "distinct (map snd (players st'))"
    using assms(2) fresh
    by (simp add: connection_fields(1) [OF assms(1)] assoc_set_distinct_values wf_iff)
  have "b < accepted st' \<and> p_ws (heap st' b) = b \<and> p_id (heap st' b) = k"
    if "(k, b) \<in> set (players st')" for k b
  proof -
    from that have "(k, b) = (?k, ?ws) \<or> (k, b) \<in> set (players st)"
      using assoc_set_subset [of ?k ?ws "players st"]
      by (auto simp: connection_fields(1) [OF assms(1)])
    then show ?thesis
    proof
      assume "(k, b) = (?k, ?ws)"
      then show ?thesis
        by (simp add: connection_fields(2,3) [OF assms(1)] p_ws_createPlayer)
    next
      assume m: "(k, b) \<in> set (players st)"
      with assms(2) have "b < ?ws" "p_ws (heap st b) = b" "p_id (heap st b) = k"
        by (auto simp: wf_iff)
      then show ?thesis
        by (simp add: connection_fields(2,3) [OF assms(1)])
    qed
  qed
  with d1 d2 show ?thesis
    by (auto simp: wf_iff)
qed

lemma wf_on_close:
  assumes "on_close a st = Inr st'" and "wf st"
  shows "wf st'"
  using assms(2)
  by (auto simp: wf_iff on_close_fields(1,3,4) [OF assms(1)] distinct_map_filter)

lemma on_message_keeps_identity:
  assumes "on_message now a parsed st = Inr st'"
  shows "accepted st' = accepted st \<and> p_ws (heap st' b) = p_ws (heap st b)
         \<and> p_id (heap st' b) = p_id (heap st b)"
proof (cases parsed)
  case (Inl err)
  with assms show ?thesis
    by (auto simp: on_message_eq console_warn_fields)
next
  case (Inr msg)
  show ?thesis
  proof (cases "handleMessage now a msg st")
    case (Inl es)
    with assms Inr show ?thesis
      by (auto simp: on_message_eq console_warn_fields seen_fields split: prod.splits)
  next
    case r: (Inr s)
    with assms Inr have "st' = s"
      by (simp add: on_message_eq)
    with r have "handleMessage now a msg st = Inr st' \<or> handleMessage now a msg st = Inl (TypeError, st')"
      by simp
    from handleMessage_frame [OF this] show ?thesis
      by (cases "b = a") simp_all
  qed
qed

lemma wf_on_message:
  assumes "on_message now a parsed st = Inr st'" and "wf st"
  shows "wf st'"
  using assms(2) on_message_frame [OF assms(1)] on_message_keeps_identity [OF assms(1)]
  by (simp add: wf_iff)

lemma wf_simulation_tick:
  assumes "simulation_tick now st = Inr st'" and "wf st"
  shows "wf st'"
proof -
  from assms(1) have st': "st' = simulation_loop (of_int (now - lastTime st) / 1000)
      (map snd (players st)) (st\<lparr>lastTime := now\<rparr>)"
    by (auto simp: simulation_tick_def Map_values_def Let_def split: if_splits)
  have k: "p_ws ((simulate_player dt ^^ n) p) = p_ws p \<and> p_id ((simulate_player dt ^^ n) p) = p_id p"
    for dt n p
    by (induction n) (simp_all add: simulate_player_fields)
  show ?thesis
    using assms(2) by (simp add: wf_iff st' simulation_loop_fields simulation_loop_heap k)
qed

lemma wf_broadcast:
  assumes "broadcast obj st = Inr st'" and "wf st"
  shows "wf st'"
  using assms broadcast_frame [OF assms(1)]
  by (auto simp: wf_iff broadcast_eq deliver_fields split: if_splits)

lemma wf_snapshot_tick:
  assumes "snapshot_tick now st = Inr st'" and "wf st"
  shows "wf st'"
  using assms wf_broadcast
  by (auto simp: snapshot_tick_def Map_values_def split: if_splits)

lemma wf_transport: "wf st \<Longrightarrow> wf (transport c rs st)"
  by (simp add: wf_iff transport_def)

subsection \<open>The periodic snapshot\<close>

lemma snapshot_entry_defined:
  "JSON_stringify (snapshot_entry p) = snapshot_entry p" "snapshot_entry p \<noteq> JUndefined"
  "js_get (snapshot_entry p) ''id'' = Inr (JStr (p_id p))"
  by (simp_all add: snapshot_entry_def)

lemma JSON_stringify_snapshot_msg: "JSON_stringify (snapshot_msg now as st) = snapshot_msg now as st"
  by (simp add: snapshot_msg_def snapshot_players_def snapshot_entry_defined o_def)

text \<open>
  The snapshot of the timer: one payload, written to every open socket of the Map, with
  the envelope type, ts, players and one entry of six fields for each player object of
  the Map, the numbers rounded.
\<close>

lemma periodic_snapshot:
  assumes "snapshot_tick now st = Inr st'"
  shows "readyState (socks st c) = OPEN \<Longrightarrow>
           sent (socks st' c)
             = sent (socks st c) @ replicate (holders c st) (snapshot_msg now (map snd (players st)) st)"
    and "readyState (socks st c) \<noteq> OPEN \<Longrightarrow> socks st' c = socks st c"
    and "snapshot_msg now (map snd (players st)) st =
           JObj [(''type'', JStr ''snapshot''), (''ts'', JNum (of_int now)),
                 (''players'', JArr (map (\<lambda>kv.
                    JObj [(''id'', JStr (p_id (heap st (snd kv)))),
                          (''x'', JNum (Math_round (p_x (heap st (snd kv))))),
                          (''y'', JNum (Math_round (p_y (heap st (snd kv))))),
                          (''vx'', JNum (Math_round (p_vx (heap st (snd kv))))),
                          (''vy'', JNum (Math_round (p_vy (heap st (snd kv))))),
                          (''color'', JStr (p_color (heap st (snd kv))))]) (players st)))]"
proof -
  from assms have b: "broadcast (snapshot_msg now (map snd (players st)) st) st = Inr st'"
    by (auto simp: snapshot_tick_def Map_values_def split: if_splits)
  show "readyState (socks st c) = OPEN \<Longrightarrow>
           sent (socks st' c)
             = sent (socks st c) @ replicate (holders c st) (snapshot_msg now (map snd (players st)) st)"
    using broadcast_frame [OF b] by (simp add: JSON_stringify_snapshot_msg)
  show "readyState (socks st c) \<noteq> OPEN \<Longrightarrow> socks st' c = socks st c"
    using broadcast_frame [OF b] by simp
  show "snapshot_msg now (map snd (players st)) st =
           JObj [(''type'', JStr ''snapshot''), (''ts'', JNum (of_int now)),
                 (''players'', JArr (map (\<lambda>kv.
                    JObj [(''id'', JStr (p_id (heap st (snd kv)))),
                          (''x'', JNum (Math_round (p_x (heap st (snd kv))))),
                          (''y'', JNum (Math_round (p_y (heap st (snd kv))))),
                          (''vx'', JNum (Math_round (p_vx (heap st (snd kv))))),
                          (''vy'', JNum (Math_round (p_vy (heap st (snd kv))))),
                          (''color'', JStr (p_color (heap st (snd kv))))]) (players st)))]"
    by (simp add: snapshot_msg_def snapshot_players_def snapshot_entry_def o_def)
qed

subsection \<open>What a disconnect does and what it leaves behind\<close>

text \<open>
  The close handler on a state of a running server: the id of the player is no key of
  the Map any more, every player that stays in the Map gets the remove payload once if
  its socket is open and nothing otherwise, the Map stays as it is when the id was no
  key of it, and no entry of a periodic snapshot of the new state has the id.
\<close>

lemma close_removes_and_notifies:
  assumes "on_close a st = Inr st'" and "wf st"
  shows "p_id (heap st a) \<notin> set (map fst (players st'))"
    and "(k, b) \<in> set (players st') \<Longrightarrow> readyState (socks st b) = OPEN \<Longrightarrow>
           sent (socks st' b) = sent (socks st b) @ [remove_msg (p_id (heap st a))]"
    and "readyState (socks st c) \<noteq> OPEN \<Longrightarrow> sent (socks st' c) = sent (socks st c)"
    and "p_id (heap st a) \<notin> set (map fst (players st)) \<Longrightarrow> players st' = players st"
    and "entry \<in> set (snapshot_players (map snd (players st')) st') \<Longrightarrow>
           js_get entry ''id'' \<noteq> Inr (JStr (p_id (heap st a)))"
proof -
  have w: "wf st'"
    by (rule wf_on_close [OF assms])
  show 1: "p_id (heap st a) \<notin> set (map fst (players st'))"
    by (auto simp: on_close_fields(1) [OF assms(1)])
  show "sent (socks st' b) = sent (socks st b) @ [remove_msg (p_id (heap st a))]"
    if "(k, b) \<in> set (players st')" "readyState (socks st b) = OPEN" for k b
  proof -
    from that(1) have "b \<in> set (map snd (players st'))"
      by force
    then have "holders b st' = 1"
      by (simp add: wf_holders [OF w])
    with that(2) show ?thesis
      by (simp add: on_close_fields(8) [OF assms(1)])
  qed
  show "readyState (socks st c) \<noteq> OPEN \<Longrightarrow> sent (socks st' c) = sent (socks st c)"
    by (simp add: on_close_fields(8) [OF assms(1)])
  show "p_id (heap st a) \<notin> set (map fst (players st)) \<Longrightarrow> players st' = players st"
    by (force simp: on_close_fields(1) [OF assms(1)] filter_id_conv)
  show "js_get entry ''id'' \<noteq> Inr (JStr (p_id (heap st a)))"
    if "entry \<in> set (snapshot_players (map snd (players st')) st')"
  proof -
    from that obtain k b where m: "(k, b) \<in> set (players st')"
      and e: "entry = snapshot_entry (heap st' b)"
      by (auto simp: snapshot_players_def)
    from w m have "p_id (heap st' b) = k"
      by (auto simp: wf_iff)
    moreover from m 1 have "k \<noteq> p_id (heap st a)"
      by force
    ultimately show ?thesis
      by (simp add: e snapshot_entry_defined)
  qed
qed

lemma snapshot_ids_are_keys:
  assumes "wf s" and "entry \<in> set (snapshot_players (map snd (players s)) s)"
  shows "\<exists>k \<in> set (map fst (players s)). js_get entry ''id'' = Inr (JStr k)"
proof -
  from assms(2) obtain k b where m: "(k, b) \<in> set (players s)"
    and e: "entry = snapshot_entry (heap s b)"
    by (auto simp: snapshot_players_def)
  from assms(1) m have "p_id (heap s b) = k"
    by (auto simp: wf_iff)
  with m show ?thesis
    by (force simp: e snapshot_entry_defined)
qed

lemma reachable_wf: "reachable st \<Longrightarrow> wf st"
proof (induction rule: reachable.induct)
  case (start t)
  show ?case by (rule wf_server_start)
next
  case (connected st e ra st')
  then show ?case using wf_connection by blast
next
  case (message st now a parsed st')
  then show ?case using wf_on_message by blast
next
  case (closed st a st')
  then show ?case using wf_on_close by blast
next
  case (simulated st now st')
  then show ?case using wf_simulation_tick by blast
next
  case (snapshot st now st')
  then show ?case using wf_snapshot_tick by blast
next
  case (moved st c rs)
  then show ?case using wf_transport by blast
qed

subsection \<open>Two connections\<close>

text \<open>The second connection, with the draws of \<open>bob\<close>, after the first.\<close>

lemma alice_and_bob_join:
  "\<exists>st1 st2. connection alice (Some ''::ffff:127.0.0.1'') (server_start 0) = Inr st1
     \<and> connection bob (Some ''::ffff:10.0.0.7'') st1 = Inr st2
     \<and> reachable st2
     \<and> players st2 = [(''0123456789abcdef'', 0), (''fedcba9876543210'', 1)]
     \<and> heap st2 0 = createPlayer 0 alice \<and> heap st2 1 = createPlayer 1 bob
     \<and> props st2 = [(''k3j9x2a'', \<lparr>s_x = 100, s_y = 100, s_vx = 0, s_vy = 0,
                                      s_color = ''#00ff00'', s_ip = ''127.0.0.1''\<rparr>),
                     (''7zq0m4c'', \<lparr>s_x = 100, s_y = 100, s_vx = 0, s_vy = 0,
                                      s_color = ''#123456'', s_ip = ''10.0.0.7''\<rparr>)]
     \<and> readyState (socks st2 0) = OPEN \<and> readyState (socks st2 1) = OPEN
     \<and> accepted st2 = 2"
proof -
  obtain st1 where c1: "connection alice (Some ''::ffff:127.0.0.1'') (server_start 0) = Inr st1"
    and p1: "players st1 = [(''0123456789abcdef'', 0)]"
    and h1: "heap st1 0 = createPlayer 0 alice"
    and a1: "accepted st1 = 1"
    and q1: "props st1 = [(''k3j9x2a'', \<lparr>s_x = 100, s_y = 100, s_vx = 0, s_vy = 0,
                                       s_color = ''#00ff00'', s_ip = ''127.0.0.1''\<rparr>)]"
    and r1: "readyState (socks st1 0) = OPEN"
    using alice_joins by blast
  obtain st2 where c2: "connection bob (Some ''::ffff:10.0.0.7'') st1 = Inr st2"
    using connection_returns [of st1 bob "''::ffff:10.0.0.7''"]
    by (auto simp: has_own_def q1 bob_values)
  have "reachable st2"
    using reachable.start [of 0] c1 c2 by (blast intro: reachable.connected)
  moreover have "players st2 = [(''0123456789abcdef'', 0), (''fedcba9876543210'', 1)]"
    by (simp add: connection_fields(1) [OF c2] p1 a1 bob_values)
  moreover have "heap st2 0 = createPlayer 0 alice" "heap st2 1 = createPlayer 1 bob"
    by (simp_all add: connection_fields(2) [OF c2] a1 h1)
  moreover have "props st2 = [(''k3j9x2a'', \<lparr>s_x = 100, s_y = 100, s_vx = 0, s_vy = 0,
                                      s_color = ''#00ff00'', s_ip = ''127.0.0.1''\<rparr>),
                     (''7zq0m4c'', \<lparr>s_x = 100, s_y = 100, s_vx = 0, s_vy = 0,
                                      s_color = ''#123456'', s_ip = ''10.0.0.7''\<rparr>)]"
    by (simp add: connection_fields(6) [OF c2] greeted_fields q1 bob_values)
  moreover have "readyState (socks st2 0) = OPEN" "readyState (socks st2 1) = OPEN"
    by (simp_all add: connection_fields(7) [OF c2] a1 r1)
  moreover have "accepted st2 = 2"
    by (simp add: connection_fields(3) [OF c2] a1)
  ultimately show ?thesis
    using c1 c2 by blast
qed

lemma connection_second_payload:
  assumes "connection e ra st = Inr st'"
  shows "sent (socks st' (accepted st)) ! 1 = join_snapshot st'"
proof -
  have "sent (socks st' (accepted st)) =
      welcome_msg (slice_js 2 9 (random_text e)) (replace ''::ffff:'' [] (the ra))
      # replicate (holders (accepted st) st') (join_snapshot st')
      @ replicate (holders (accepted st) st') (player_join_msg (createPlayer (accepted st) e))"
    by (simp add: connection_sent [OF assms] JSON_stringify_join_snapshot)
  then show ?thesis
    using connection_registers(3) [OF assms] by (simp only: replicate_nth_0)
qed

subsection \<open>The disconnect\<close>

text \<open>
  Claim C7, amended. The close handler returns unless a property of the Map object hides
  \<open>delete\<close> or \<open>values\<close>. When it returns in a state of a running server: the id
  of the player is no key of the Map any more; every player that stays in the Map has
  the remove payload with that id written to its socket exactly once if the socket is
  open, and nothing is written to a socket that is not open; when the id was no key of
  the Map, the Map stays as it is; and no entry of a periodic snapshot carries the id,
  in the new state and in every state of a running server whose Map has no such key.
\<close>

theorem disconnect_removes_and_notifies:
  assumes "reachable st"
  shows "((\<exists>st'. on_close a st = Inr st') = (\<not> has_own ''delete'' st \<and> \<not> has_own ''values'' st))
     \<and> (\<forall>st'. on_close a st = Inr st' \<longrightarrow>
          p_id (heap st a) \<notin> set (map fst (players st'))
          \<and> (\<forall>k b. (k, b) \<in> set (players st') \<and> readyState (socks st b) = OPEN \<longrightarrow>
                sent (socks st' b) = sent (socks st b) @ [remove_msg (p_id (heap st a))])
          \<and> (\<forall>c. readyState (socks st c) \<noteq> OPEN \<longrightarrow> sent (socks st' c) = sent (socks st c))
          \<and> (p_id (heap st a) \<notin> set (map fst (players st)) \<longrightarrow> players st' = players st)
          \<and> (\<forall>entry. entry \<in> set (snapshot_players (map snd (players st')) st') \<longrightarrow>
                js_get entry ''id'' \<noteq> Inr (JStr (p_id (heap st a)))))
     \<and> (\<forall>s entry. reachable s \<and> p_id (heap st a) \<notin> set (map fst (players s))
            \<and> entry \<in> set (snapshot_players (map snd (players s)) s) \<longrightarrow>
          js_get entry ''id'' \<noteq> Inr (JStr (p_id (heap st a))))"
proof -
  have w: "wf st"
    by (rule reachable_wf [OF assms])
  have g: "\<forall>s entry. reachable s \<and> p_id (heap st a) \<notin> set (map fst (players s))
            \<and> entry \<in> set (snapshot_players (map snd (players s)) s) \<longrightarrow>
          js_get entry ''id'' \<noteq> Inr (JStr (p_id (heap st a)))"
    using snapshot_ids_are_keys reachable_wf by fastforce
  have "(\<exists>st'. on_close a st = Inr st') = (\<not> has_own ''delete'' st \<and> \<not> has_own ''values'' st)"
    by (auto simp: on_close_eq)
  moreover have "\<forall>st'. on_close a st = Inr st' \<longrightarrow>
          p_id (heap st a) \<notin> set (map fst (players st'))
          \<and> (\<forall>k b. (k, b) \<in> set (players st') \<and> readyState (socks st b) = OPEN \<longrightarrow>
                sent (socks st' b) = sent (socks st b) @ [remove_msg (p_id (heap st a))])
          \<and> (\<forall>c. readyState (socks st c) \<noteq> OPEN \<longrightarrow> sent (socks st' c) = sent (socks st c))
          \<and> (p_id (heap st a) \<notin> set (map fst (players st)) \<longrightarrow> players st' = players st)
          \<and> (\<forall>entry. entry \<in> set (snapshot_players (map snd (players st')) st') \<longrightarrow>
                js_get entry ''id'' \<noteq> Inr (JStr (p_id (heap st a))))"
    using close_removes_and_notifies [OF _ w] by blast
  ultimately show ?thesis
    using g by blast
qed

theorem disconnect_removes_and_notifies_witness:
  "\<exists>st1 st2 st3. connection alice (Some ''::ffff:127.0.0.1'') (server_start 0) = Inr st1
     \<and> connection bob (Some ''::ffff:10.0.0.7'') st1 = Inr st2
     \<and> reachable st2
     \<and> on_close 0 st2 = Inr st3
     \<and> players st3 = [(''fedcba9876543210'', 1)]
     \<and> sent (socks st3 1) = sent (socks st2 1) @ [remove_msg ''0123456789abcdef'']"
proof -
  obtain st1 st2 where c1: "connection alice (Some ''::ffff:127.0.0.1'') (server_start 0) = Inr st1"
    and c2: "connection bob (Some ''::ffff:10.0.0.7'') st1 = Inr st2"
    and r: "reachable st2"
    and p2: "players st2 = [(''0123456789abcdef'', 0), (''fedcba9876543210'', 1)]"
    and h2: "heap st2 0 = createPlayer 0 alice"
    and q2: "props st2 = [(''k3j9x2a'', \<lparr>s_x = 100, s_y = 100, s_vx = 0, s_vy = 0,
                                      s_color = ''#00ff00'', s_ip = ''127.0.0.1''\<rparr>),
                     (''7zq0m4c'', \<lparr>s_x = 100, s_y = 100, s_vx = 0, s_vy = 0,
                                      s_color = ''#123456'', s_ip = ''10.0.0.7''\<rparr>)]"
    and o2: "readyState (socks st2 1) = OPEN"
    using alice_and_bob_join by blast
  have n: "\<not> has_own ''delete'' st2 \<and> \<not> has_own ''values'' st2"
    by (simp add: has_own_def q2)
  from disconnect_removes_and_notifies [OF r, of 0] n
  obtain st3 where c3: "on_close 0 st2 = Inr st3"
    by blast
  have p3: "players st3 = [(''fedcba9876543210'', 1)]"
    by (simp add: on_close_fields(1) [OF c3] p2 h2 alice_values)
  from disconnect_removes_and_notifies [OF r, of 0] c3
  have "\<forall>k b. (k, b) \<in> set (players st3) \<and> readyState (socks st2 b) = OPEN \<longrightarrow>
          sent (socks st3 b) = sent (socks st2 b) @ [remove_msg (p_id (heap st2 0))]"
    by blast
  then have "sent (socks st3 1) = sent (socks st2 1) @ [remove_msg (p_id (heap st2 0))]"
    using p3 o2 by simp
  then have "sent (socks st3 1) = sent (socks st2 1) @ [remove_msg ''0123456789abcdef'']"
    by (simp add: h2 alice_values)
  with c1 c2 r c3 p3 show ?thesis
    by blast
qed

text \<open>
  The claim as it stands fails twice. When the socket of a player that stays in the Map
  is closing, the close handler of another player writes no remove payload to it. And
  the snapshot that the next connection handler broadcasts still lists the second
  record of the player that has left, under the id of its welcome.
\<close>

theorem disconnect_counterexample:
  "(\<exists>st1 st2 st3. connection alice (Some ''::ffff:127.0.0.1'') (server_start 0) = Inr st1
      \<and> connection bob (Some ''::ffff:10.0.0.7'') st1 = Inr st2
      \<and> on_close 0 (transport 1 CLOSING st2) = Inr st3
      \<and> players st3 = [(''fedcba9876543210'', 1)]
      \<and> sent (socks st3 1) =
          [welcome_msg ''7zq0m4c'' ''10.0.0.7'', join_snapshot st2,
           player_join_msg (createPlayer 1 bob)])
   \<and> (\<exists>st1 st2 st3. connection alice (Some ''::ffff:127.0.0.1'') (server_start 0) = Inr st1
      \<and> on_close 0 st1 = Inr st2
      \<and> players st2 = []
      \<and> connection bob (Some ''::ffff:10.0.0.7'') st2 = Inr st3
      \<and> players st3 = [(''fedcba9876543210'', 1)]
      \<and> sent (socks st3 1) ! 1 =
          JObj [(''type'', JStr ''snapshot''),
                (''players'', JArr
                  [JObj [(''id'', JStr ''k3j9x2a''), (''x'', JNum 100), (''y'', JNum 100),
                         (''vx'', JNum 0), (''vy'', JNum 0), (''color'', JStr ''#00ff00''),
                         (''ip'', JStr ''127.0.0.1'')],
                   JObj [(''id'', JStr ''7zq0m4c''), (''x'', JNum 100), (''y'', JNum 100),
                         (''vx'', JNum 0), (''vy'', JNum 0), (''color'', JStr ''#123456''),
                         (''ip'', JStr ''10.0.0.7'')]])])"
proof -
  have one: "\<exists>st1 st2 st3. connection alice (Some ''::ffff:127.0.0.1'') (server_start 0) = Inr st1
      \<and> connection bob (Some ''::ffff:10.0.0.7'') st1 = Inr st2
      \<and> on_close 0 (transport 1 CLOSING st2) = Inr st3
      \<and> players st3 = [(''fedcba9876543210'', 1)]
      \<and> sent (socks st3 1) =
          [welcome_msg ''7zq0m4c'' ''10.0.0.7'', join_snapshot st2,
           player_join_msg (createPlayer 1 bob)]"
  proof -
    obtain st1 st2 where c1: "connection alice (Some ''::ffff:127.0.0.1'') (server_start 0) = Inr st1"
      and c2: "connection bob (Some ''::ffff:10.0.0.7'') st1 = Inr st2"
      and r: "reachable st2"
      and p2: "players st2 = [(''0123456789abcdef'', 0), (''fedcba9876543210'', 1)]"
      and h2: "heap st2 0 = createPlayer 0 alice"
      and q2: "props st2 = [(''k3j9x2a'', \<lparr>s_x = 100, s_y = 100, s_vx = 0, s_vy = 0,
                                        s_color = ''#00ff00'', s_ip = ''127.0.0.1''\<rparr>),
                       (''7zq0m4c'', \<lparr>s_x = 100, s_y = 100, s_vx = 0, s_vy = 0,
                                        s_color = ''#123456'', s_ip = ''10.0.0.7''\<rparr>)]"
      using alice_and_bob_join by blast
    have a1: "accepted st1 = 1"
      using alice_joins c1 by auto
    have n: "holders (Suc 0) st2 = 1"
      by (simp add: wf_holders [OF reachable_wf [OF r]] p2)
    have s2: "sent (socks st2 1) =
        [welcome_msg ''7zq0m4c'' ''10.0.0.7'', join_snapshot st2,
         player_join_msg (createPlayer 1 bob)]"
      by (simp add: connection_sent [OF c2] a1 n JSON_stringify_join_snapshot bob_values)
    let ?t = "transport 1 CLOSING st2"
    obtain st3 where c3: "on_close 0 ?t = Inr st3"
      using on_close_returns [of ?t 0] by (auto simp: transport_fields has_own_def q2)
    have p3: "players st3 = [(''fedcba9876543210'', 1)]"
      by (simp add: on_close_fields(1) [OF c3] transport_fields p2 h2 alice_values)
    have "sent (socks st3 1) = sent (socks st2 1)"
      by (simp add: on_close_fields(8) [OF c3] transport_fields)
    with c1 c2 c3 p3 s2 show ?thesis
      by auto
  qed
  have two: "\<exists>st1 st2 st3. connection alice (Some ''::ffff:127.0.0.1'') (server_start 0) = Inr st1
      \<and> on_close 0 st1 = Inr st2
      \<and> players st2 = []
      \<and> connection bob (Some ''::ffff:10.0.0.7'') st2 = Inr st3
      \<and> players st3 = [(''fedcba9876543210'', 1)]
      \<and> sent (socks st3 1) ! 1 =
          JObj [(''type'', JStr ''snapshot''),
                (''players'', JArr
                  [JObj [(''id'', JStr ''k3j9x2a''), (''x'', JNum 100), (''y'', JNum 100),
                         (''vx'', JNum 0), (''vy'', JNum 0), (''color'', JStr ''#00ff00''),
                         (''ip'', JStr ''127.0.0.1'')],
                   JObj [(''id'', JStr ''7zq0m4c''), (''x'', JNum 100), (''y'', JNum 100),
                         (''vx'', JNum 0), (''vy'', JNum 0), (''color'', JStr ''#123456''),
                         (''ip'', JStr ''10.0.0.7'')]])]"
  proof -
    obtain st1 where c1: "connection alice (Some ''::ffff:127.0.0.1'') (server_start 0) = Inr st1"
      and p1: "players st1 = [(''0123456789abcdef'', 0)]"
      and h1: "heap st1 0 = createPlayer 0 alice"
      and a1: "accepted st1 = 1"
      and q1: "props st1 = [(''k3j9x2a'', \<lparr>s_x = 100, s_y = 100, s_vx = 0, s_vy = 0,
                                         s_color = ''#00ff00'', s_ip = ''127.0.0.1''\<rparr>)]"
      using alice_joins by blast
    obtain st2 where c2: "on_close 0 st1 = Inr st2"
      using on_close_returns [of st1 0] by (auto simp: has_own_def q1)
    have p2: "players st2 = []"
      by (simp add: on_close_fields(1) [OF c2] p1 h1 alice_values)
    have q2: "props st2 = props st1" and a2: "accepted st2 = 1"
      by (simp_all add: on_close_fields [OF c2] a1)
    obtain st3 where c3: "connection bob (Some ''::ffff:10.0.0.7'') st2 = Inr st3"
      using connection_returns [of st2 bob "''::ffff:10.0.0.7''"]
      by (auto simp: has_own_def q2 q1 bob_values)
    have p3: "players st3 = [(''fedcba9876543210'', 1)]"
      by (simp add: connection_fields(1) [OF c3] p2 a2 bob_values)
    have q3: "props st3 = [(''k3j9x2a'', \<lparr>s_x = 100, s_y = 100, s_vx = 0, s_vy = 0,
                                        s_color = ''#00ff00'', s_ip = ''127.0.0.1''\<rparr>),
                       (''7zq0m4c'', \<lparr>s_x = 100, s_y = 100, s_vx = 0, s_vy = 0,
                                        s_color = ''#123456'', s_ip = ''10.0.0.7''\<rparr>)]"
      by (simp add: connection_fields(6) [OF c3] greeted_fields q2 q1 bob_values)
    have "sent (socks st3 1) ! 1 = join_snapshot st3"
      using connection_second_payload [OF c3] by (simp add: a2)
    then have "sent (socks st3 1) ! 1 =
          JObj [(''type'', JStr ''snapshot''),
                (''players'', JArr
                  [JObj [(''id'', JStr ''k3j9x2a''), (''x'', JNum 100), (''y'', JNum 100),
                         (''vx'', JNum 0), (''vy'', JNum 0), (''color'', JStr ''#00ff00''),
                         (''ip'', JStr ''127.0.0.1'')],
                   JObj [(''id'', JStr ''7zq0m4c''), (''x'', JNum 100), (''y'', JNum 100),
                         (''vx'', JNum 0), (''vy'', JNum 0), (''color'', JStr ''#123456''),
                         (''ip'', JStr ''10.0.0.7'')]])]"
      by (simp add: join_snapshot_def q3 Object_entries_def not_index join_entry_def)
    with c1 c2 p2 c3 p3 show ?thesis
      by blast
  qed
  from one two show ?thesis
    by (rule conjI)
qed

end
